theory Spec2Isabelle
  imports Main "HOL-Library.Sublist" "HOL-Library.Char_ord" "HOL-Library.List_Lexorder"
    "HOL-Library.AList"
begin

section \<open>The file system\<close>

text \<open>
  The scripts work on \<^verbatim>\<open>pathlib.Path\<close> values that are absolute and resolved. Such a path is
  the list of its components below the file-system root; the root itself is the empty list.
\<close>

type_synonym path = "string list"

text \<open>
  The disk is a tree. A regular file carries its size in bytes (\<^verbatim>\<open>st_size\<close>). A directory
  carries its read permission and its entries, a list of names with their nodes. A symbolic
  link carries the node it points to; a link whose target is missing is \<open>Dangling\<close>.
  The read permission is the only permission modelled: listing a directory without it raises
  \<^verbatim>\<open>PermissionError\<close>; search and write permission are taken as granted everywhere.
  A link holds a copy of its target, so two paths that reach the same directory through a link
  are not kept in step by a removal.
\<close>

datatype node = File nat | Dir bool "(string \<times> node) list" | Link node | Dangling

datatype error =
  PermissionError | NotADirectoryError | IsADirectoryError | FileNotFoundError | FileExistsError
  | OSError | EOFError

text \<open>What \<^verbatim>\<open>stat\<close> sees: links are followed to the end of the chain.\<close>

fun resolve :: "node \<Rightarrow> node option" where
  "resolve (Link t) = resolve t"
| "resolve Dangling = None"
| "resolve (File s) = Some (File s)"
| "resolve (Dir r ks) = Some (Dir r ks)"

text \<open>The node a path leads to from the root \<open>t\<close>, following links in every component.\<close>

fun lookup :: "node \<Rightarrow> path \<Rightarrow> node option" where
  "lookup t [] = resolve t"
| "lookup t (n # p) =
     (case resolve t of
        Some (Dir r ks) \<Rightarrow> (case map_of ks n of Some c \<Rightarrow> lookup c p | None \<Rightarrow> None)
      | _ \<Rightarrow> None)"

text \<open>\<^verbatim>\<open>Path.exists()\<close>, \<^verbatim>\<open>Path.is_dir()\<close> and \<^verbatim>\<open>Path.is_file()\<close>; all three follow links.\<close>

definition exists :: "node \<Rightarrow> path \<Rightarrow> bool" where
  "exists fs p = (lookup fs p \<noteq> None)"

definition is_dir :: "node \<Rightarrow> path \<Rightarrow> bool" where
  "is_dir fs p = (case lookup fs p of Some (Dir r ks) \<Rightarrow> True | _ \<Rightarrow> False)"

definition is_file :: "node \<Rightarrow> path \<Rightarrow> bool" where
  "is_file fs p = (case lookup fs p of Some (File s) \<Rightarrow> True | _ \<Rightarrow> False)"

text \<open>\<^verbatim>\<open>Path.parent\<close> (the root is its own parent) and \<^verbatim>\<open>Path.name\<close> (empty for the root).\<close>

definition parent :: "path \<Rightarrow> path" where
  "parent p = butlast p"

definition basename :: "path \<Rightarrow> string" where
  "basename p = (if p = [] then [] else last p)"

text \<open>
  The ambient process state the scripts read: the working directory (\<^verbatim>\<open>Path.cwd()\<close>), the
  user's home (\<^verbatim>\<open>Path.home()\<close>) and the location of \<^verbatim>\<open>fetch_source.py\<close> (\<^verbatim>\<open>__file__\<close>).
\<close>

record env =
  cwd :: path
  home :: path
  script_file :: path

section \<open>The boundary search\<close>

subsection \<open>\<^verbatim>\<open>cleanup_materials.find_project_root\<close>\<close>

text \<open>The \<^verbatim>\<open>while current != current.parent\<close> loop, started at the resolved path.\<close>

function find_project_root_walk :: "node \<Rightarrow> path \<Rightarrow> path option" where
  "find_project_root_walk fs current =
     (if current \<noteq> parent current then
        (if exists fs (current @ [''.git'']) \<or> exists fs (current @ [''.claude''])
         then Some current
         else find_project_root_walk fs (parent current))
      else None)"
  by pat_completeness auto
termination
proof (relation "measure (\<lambda>(fs, current). length current)")
  show "wf (measure (\<lambda>(fs, current). length current))" by simp
next
  fix fs :: node and current :: path
  assume "current \<noteq> parent current"
  then have "current \<noteq> []" by (auto simp: parent_def)
  then show "((fs, parent current), (fs, current)) \<in> measure (\<lambda>(fs, current). length current)"
    by (simp add: parent_def)
qed

declare find_project_root_walk.simps [simp del]

definition find_project_root :: "env \<Rightarrow> node \<Rightarrow> path option \<Rightarrow> path option" where
  "find_project_root e fs start_path =
     find_project_root_walk fs (case start_path of None \<Rightarrow> cwd e | Some p \<Rightarrow> p)"

subsection \<open>\<^verbatim>\<open>fetch_source.find_project_root\<close>\<close>

definition script_dir :: "env \<Rightarrow> path" where
  "script_dir e = parent (parent (script_file e))"

definition is_skill_forge_dir :: "env \<Rightarrow> node \<Rightarrow> bool" where
  "is_skill_forge_dir e fs =
     (exists fs (script_dir e @ [''SKILL.md'']) \<and> basename (script_dir e) = ''skill-forge'')"

text \<open>
  The loop of the fetch script. Its \<^verbatim>\<open>continue\<close> branch steps over the tool's own directory
  when that directory holds a marker.
\<close>

function fetch_find_project_root_walk :: "env \<Rightarrow> node \<Rightarrow> path \<Rightarrow> path option" where
  "fetch_find_project_root_walk e fs current =
     (if current \<noteq> parent current then
        (if exists fs (current @ [''.git'']) \<or> exists fs (current @ [''.claude''])
         then (if is_skill_forge_dir e fs \<and> current = script_dir e
               then fetch_find_project_root_walk e fs (parent current)
               else Some current)
         else fetch_find_project_root_walk e fs (parent current))
      else None)"
  by pat_completeness auto
termination
proof (relation "measure (\<lambda>(e, fs, current). length current)")
  show "wf (measure (\<lambda>(e, fs, current). length current))" by simp
next
  fix e :: "'a env_scheme" and fs :: node and current :: path
  assume "current \<noteq> parent current"
  then have ne: "current \<noteq> []" by (auto simp: parent_def)
  then show "((e, fs, parent current), (e, fs, current))
      \<in> measure (\<lambda>(e, fs, current). length current)"
    by (simp add: parent_def)
  from ne show "((e, fs, parent current), (e, fs, current))
      \<in> measure (\<lambda>(e, fs, current). length current)"
    by (simp add: parent_def)
qed

declare fetch_find_project_root_walk.simps [simp del]

definition fetch_find_project_root :: "env \<Rightarrow> node \<Rightarrow> path option \<Rightarrow> path option" where
  "fetch_find_project_root e fs start_path =
     fetch_find_project_root_walk e fs (case start_path of None \<Rightarrow> cwd e | Some p \<Rightarrow> p)"

text \<open>
  The directories the walk tests, nearest first: the starting directory and its ancestors,
  the file-system root left out (the loop stops there without testing it).
\<close>

definition walked_dirs :: "path \<Rightarrow> path list" where
  "walked_dirs start = rev (tl (prefixes start))"

definition has_marker :: "node \<Rightarrow> path \<Rightarrow> bool" where
  "has_marker fs d = (exists fs (d @ [''.git'']) \<or> exists fs (d @ [''.claude'']))"

section \<open>Strings\<close>

text \<open>
  \<^verbatim>\<open>str.startswith\<close>, \<^verbatim>\<open>str.endswith\<close>, \<^verbatim>\<open>str.strip()\<close> and \<^verbatim>\<open>str.lower()\<close> on byte
  strings. Whitespace is the ASCII whitespace Python strips (codes 9 to 13, 28 to 31 and 32)
  and case folding is the ASCII one; characters beyond ASCII are left as they are.
\<close>

definition startswith :: "string \<Rightarrow> string \<Rightarrow> bool" where
  "startswith s pre = prefix pre s"


definition isspace :: "char \<Rightarrow> bool" where
  "isspace c = (let k = (of_char c :: nat) in (9 \<le> k \<and> k \<le> 13) \<or> (28 \<le> k \<and> k \<le> 32))"

definition strip :: "string \<Rightarrow> string" where
  "strip s = rev (dropWhile isspace (rev (dropWhile isspace s)))"

definition lower_char :: "char \<Rightarrow> char" where
  "lower_char c =
     (case map_of (zip ''ABCDEFGHIJKLMNOPQRSTUVWXYZ'' ''abcdefghijklmnopqrstuvwxyz'') c of
        Some l \<Rightarrow> l
      | None \<Rightarrow> c)"

definition lower :: "string \<Rightarrow> string" where
  "lower s = map lower_char s"

text \<open>
  \<^verbatim>\<open>int(s)\<close> on an already stripped string: an optional sign, then decimal digits, single
  underscores allowed between digits. \<open>None\<close> stands for \<^verbatim>\<open>ValueError\<close>. Decimal digits
  beyond ASCII, which Python also accepts, are not modelled.
\<close>

definition digit_val :: "char \<Rightarrow> nat option" where
  "digit_val c =
     (let k = (of_char c :: nat) in if 48 \<le> k \<and> k \<le> 57 then Some (k - 48) else None)"

fun int_digits :: "nat \<Rightarrow> string \<Rightarrow> nat option" where
  "int_digits acc [] = Some acc"
| "int_digits acc [c] = (if c = CHR ''_'' then None else
       (case digit_val c of Some d \<Rightarrow> Some (10 * acc + d) | None \<Rightarrow> None))"
| "int_digits acc (c # c' # cs) =
     (if c = CHR ''_'' then (if c' = CHR ''_'' then None else int_digits acc (c' # cs))
      else (case digit_val c of
              Some d \<Rightarrow> int_digits (10 * acc + d) (c' # cs)
            | None \<Rightarrow> None))"

definition int_unsigned :: "string \<Rightarrow> nat option" where
  "int_unsigned s =
     (case s of
        [] \<Rightarrow> None
      | c # cs \<Rightarrow> (if c = CHR ''_'' then None else int_digits 0 s))"

definition py_int :: "string \<Rightarrow> int option" where
  "py_int s =
     (case s of
        [] \<Rightarrow> None
      | c # cs \<Rightarrow>
          (if c = CHR ''-'' then map_option (\<lambda>n. - int n) (int_unsigned cs)
           else if c = CHR ''+'' then map_option int (int_unsigned cs)
           else map_option int (int_unsigned s)))"

section \<open>Locating the material directories\<close>

text \<open>\<^verbatim>\<open>get_materials_dirs\<close>: the roots that exist, each with its mode name.\<close>

definition get_materials_dirs :: "env \<Rightarrow> node \<Rightarrow> (path \<times> string) list" where
  "get_materials_dirs e fs =
     (let dirs =
            (case find_project_root e fs None of
               Some project_root \<Rightarrow>
                 (let project_materials = project_root @ [''.claude'', ''temp-materials'']
                  in if exists fs project_materials
                     then [(project_materials, ''project'')] else [])
             | None \<Rightarrow> []);
          global_materials = home e @ [''skill-materials'']
      in if exists fs global_materials then dirs @ [(global_materials, ''global'')] else dirs)"

text \<open>\<^verbatim>\<open>get_materials_dir\<close>: the first existing root, else the place new material would go.\<close>

definition get_materials_dir :: "env \<Rightarrow> node \<Rightarrow> path" where
  "get_materials_dir e fs =
     (case get_materials_dirs e fs of
        d # ds \<Rightarrow> fst d
      | [] \<Rightarrow>
          (case find_project_root e fs None of
             Some project_root \<Rightarrow> project_root @ [''.claude'', ''temp-materials'']
           | None \<Rightarrow> home e @ [''skill-materials'']))"

text \<open>\<^verbatim>\<open>fetch_source.get_smart_materials_dir\<close>: where the fetch script writes.\<close>

definition get_smart_materials_dir :: "env \<Rightarrow> node \<Rightarrow> path \<times> bool" where
  "get_smart_materials_dir e fs =
     (case fetch_find_project_root e fs None of
        Some project_root \<Rightarrow> (project_root @ [''.claude'', ''temp-materials''], True)
      | None \<Rightarrow> (home e @ [''skill-materials''], False))"

section \<open>Sizes\<close>

text \<open>
  \<^verbatim>\<open>get_dir_size\<close> on a directory node, with the loop over \<^verbatim>\<open>os.scandir\<close>. Scanning a
  directory that may not be read raises \<^verbatim>\<open>PermissionError\<close> before the first entry; the
  handler returns the total so far, which is 0. An entry counts as a file or as a directory
  without following links, so a link adds nothing and is not entered.
\<close>

function get_dir_size_dir :: "node \<Rightarrow> nat"
  and get_dir_size_entries :: "(string \<times> node) list \<Rightarrow> nat" where
  "get_dir_size_dir (Dir r ks) = (if r then get_dir_size_entries ks else 0)"
| "get_dir_size_dir (File s) = 0"
| "get_dir_size_dir (Link t) = 0"
| "get_dir_size_dir Dangling = 0"
| "get_dir_size_entries [] = 0"
| "get_dir_size_entries ((n, c) # ks) =
     (case c of
        File s \<Rightarrow> s
      | Dir r ks' \<Rightarrow> get_dir_size_dir c
      | _ \<Rightarrow> 0) + get_dir_size_entries ks"
  by pat_completeness auto
termination
  by (relation "measure (\<lambda>x. case x of Inl t \<Rightarrow> size t
        | Inr ks \<Rightarrow> size_list (size_prod (\<lambda>n. 0) size) ks)") auto

text \<open>
  The call on a path. \<^verbatim>\<open>os.scandir\<close> follows a link given as the path itself; on a regular
  file it raises \<^verbatim>\<open>NotADirectoryError\<close> and on a missing path \<^verbatim>\<open>FileNotFoundError\<close>,
  neither of which the function catches.
\<close>

definition get_dir_size :: "node \<Rightarrow> path \<Rightarrow> error + nat" where
  "get_dir_size fs p =
     (case lookup fs p of
        Some (Dir r ks) \<Rightarrow> Inr (get_dir_size_dir (Dir r ks))
      | Some (File s) \<Rightarrow> Inl NotADirectoryError
      | _ \<Rightarrow> Inl FileNotFoundError)"

section \<open>Console and state\<close>

text \<open>
  One constructor for each line the cleanup script prints (decoration left out). Where the
  script prints a size formatted by \<^verbatim>\<open>format_size\<close>, the message carries the byte count.
\<close>

datatype msg =
    Banner
  | NoMaterialsDirsFound | Checked | CheckedProject path | CheckedGlobal
  | NoMaterialsFound | SourceMaterials | ProjectModeHeader "path option" | GlobalModeHeader
  | ListItem nat string nat | Total nat nat
  | AboutToDelete string nat | Skipped | Deleted string nat | ErrorDeleting string error
  | Options | ExitingWithoutChanges | WarningDeleteAll nat | DeletedCount nat nat | Cancelled
  | InvalidIndex nat | InvalidInput
  | MaterialNotFound string | SearchedIn | SearchedDir path string | FoundIn string path

text \<open>The state the script acts on: the disk, the lines still to be typed, the lines printed.\<close>

record world =
  disk :: node
  stdin :: "string list"
  stdout :: "msg list"

definition print :: "msg list \<Rightarrow> world \<Rightarrow> world" where
  "print ms w = w\<lparr>stdout := stdout w @ ms\<rparr>"

text \<open>\<^verbatim>\<open>input()\<close>: the next line, or \<^verbatim>\<open>EOFError\<close> at the end of the input.\<close>

definition input :: "world \<Rightarrow> (error + string) \<times> world" where
  "input w =
     (case stdin w of
        [] \<Rightarrow> (Inl EOFError, w)
      | l # ls \<Rightarrow> (Inr l, w\<lparr>stdin := ls\<rparr>))"

section \<open>The inventory\<close>

text \<open>The dictionary \<^verbatim>\<open>list_materials\<close> builds for an entry (\<^verbatim>\<open>size_str\<close> is a rendering of the size).\<close>

record material =
  m_name :: string
  m_path :: path
  m_size :: nat
  m_mode :: string

text \<open>\<^verbatim>\<open>Path.iterdir()\<close>, as the names of the entries.\<close>

definition iterdir :: "node \<Rightarrow> path \<Rightarrow> error + string list" where
  "iterdir fs p =
     (case lookup fs p of
        Some (Dir r ks) \<Rightarrow> (if r then Inr (map fst ks) else Inl PermissionError)
      | Some (File s) \<Rightarrow> Inl NotADirectoryError
      | _ \<Rightarrow> Inl FileNotFoundError)"

text \<open>The inner loop of \<^verbatim>\<open>list_materials\<close> over the sorted items of one root.\<close>

fun list_materials_items :: "node \<Rightarrow> path \<Rightarrow> string \<Rightarrow> string list \<Rightarrow> error + material list" where
  "list_materials_items fs materials_dir mode [] = Inr []"
| "list_materials_items fs materials_dir mode (n # ns) =
     (let item = materials_dir @ [n] in
      if is_dir fs item \<and> \<not> startswith n ''.'' then
        (case get_dir_size fs item of
           Inl err \<Rightarrow> Inl err
         | Inr sz \<Rightarrow>
             (case list_materials_items fs materials_dir mode ns of
                Inl err \<Rightarrow> Inl err
              | Inr rest \<Rightarrow>
                  Inr (\<lparr>m_name = n, m_path = item, m_size = sz, m_mode = mode\<rparr> # rest)))
      else list_materials_items fs materials_dir mode ns)"

text \<open>The outer loop over the roots.\<close>

fun list_materials_dirs :: "node \<Rightarrow> (path \<times> string) list \<Rightarrow> error + material list" where
  "list_materials_dirs fs [] = Inr []"
| "list_materials_dirs fs ((materials_dir, mode) # dirs) =
     (case iterdir fs materials_dir of
        Inl err \<Rightarrow> Inl err
      | Inr names \<Rightarrow>
          (case list_materials_items fs materials_dir mode (sort names) of
             Inl err \<Rightarrow> Inl err
           | Inr ms \<Rightarrow>
               (case list_materials_dirs fs dirs of
                  Inl err \<Rightarrow> Inl err
                | Inr rest \<Rightarrow> Inr (ms @ rest))))"

definition list_materials :: "env \<Rightarrow> world \<Rightarrow> (error + material list) \<times> world" where
  "list_materials e w =
     (let dirs = get_materials_dirs e (disk w) in
      if dirs = [] then
        (Inr [],
         print ([NoMaterialsDirsFound, Checked]
                @ (case find_project_root e (disk w) None of
                     Some project_root \<Rightarrow> [CheckedProject project_root]
                   | None \<Rightarrow> [])
                @ [CheckedGlobal]) w)
      else (list_materials_dirs (disk w) dirs, w))"

definition print_materials_list :: "env \<Rightarrow> material list \<Rightarrow> world \<Rightarrow> world" where
  "print_materials_list e materials w =
     (if materials = [] then print [NoMaterialsFound] w
      else
        (let project_materials = filter (\<lambda>m. m_mode m = ''project'') materials;
             global_materials = filter (\<lambda>m. m_mode m = ''global'') materials
         in print
              ([SourceMaterials]
               @ (if project_materials \<noteq> [] then
                    ProjectModeHeader (find_project_root e (disk w) None)
                    # map (\<lambda>(i, mat). ListItem i (m_name mat) (m_size mat))
                        (enumerate 1 project_materials)
                  else [])
               @ (if global_materials \<noteq> [] then
                    GlobalModeHeader
                    # map (\<lambda>(i, mat). ListItem i (m_name mat) (m_size mat))
                        (enumerate (1 + length project_materials) global_materials)
                  else [])
               @ [Total (length materials)
                    (sum_list (map m_size (project_materials @ global_materials)))])
              w))"

section \<open>Removal\<close>

text \<open>
  \<^verbatim>\<open>shutil.rmtree\<close> inside a directory it has opened: the entries are taken in the order of
  the listing. A directory entry is emptied first and then removed; any other entry is
  unlinked. The first failure is raised at once, so what was removed before it stays removed
  and what follows stays in place. A directory that may not be read fails to open.
  The result is the error, if any, and the entries left.
\<close>

function rmtree_entries :: "(string \<times> node) list \<Rightarrow> error option \<times> (string \<times> node) list" where
  "rmtree_entries [] = (None, [])"
| "rmtree_entries ((n, c) # ks) =
     (case c of
        Dir r ks' \<Rightarrow>
          (if r then
             (case rmtree_entries ks' of
                (None, rest) \<Rightarrow> rmtree_entries ks
              | (Some err, rest) \<Rightarrow> (Some err, (n, Dir r rest) # ks))
           else (Some PermissionError, (n, c) # ks))
      | _ \<Rightarrow> rmtree_entries ks)"
  by pat_completeness auto
termination
  by (relation "measure (size_list (size_prod (\<lambda>n. 0) size))") auto

text \<open>
  \<^verbatim>\<open>shutil.rmtree(path)\<close> from the root of the disk. Links in the directories leading to the
  entry are followed. The entry itself must be a real directory: a link is refused with
  \<^verbatim>\<open>OSError\<close>, a regular file with \<^verbatim>\<open>NotADirectoryError\<close>. The scripts never pass the
  file-system root; for it the disk is left as it is.
\<close>

fun rmtree :: "node \<Rightarrow> path \<Rightarrow> error option \<times> node" where
  "rmtree t [] = (Some OSError, t)"
| "rmtree (Link t) (n # p) = (case rmtree t (n # p) of (err, t') \<Rightarrow> (err, Link t'))"
| "rmtree Dangling (n # p) = (Some FileNotFoundError, Dangling)"
| "rmtree (File s) (n # p) = (Some NotADirectoryError, File s)"
| "rmtree (Dir r ks) [n] =
     (case map_of ks n of
        None \<Rightarrow> (Some FileNotFoundError, Dir r ks)
      | Some c \<Rightarrow>
          (case c of
             Dir r' ks' \<Rightarrow>
               (if r' then
                  (case rmtree_entries ks' of
                     (None, rest) \<Rightarrow> (None, Dir r (AList.delete n ks))
                   | (Some err, rest) \<Rightarrow> (Some err, Dir r (AList.update n (Dir r' rest) ks)))
                else (Some PermissionError, Dir r ks))
           | File s \<Rightarrow> (Some NotADirectoryError, Dir r ks)
           | _ \<Rightarrow> (Some OSError, Dir r ks)))"
| "rmtree (Dir r ks) (n # n' # p) =
     (case map_of ks n of
        None \<Rightarrow> (Some FileNotFoundError, Dir r ks)
      | Some c \<Rightarrow> (case rmtree c (n' # p) of (err, c') \<Rightarrow> (err, Dir r (AList.update n c' ks))))"

section \<open>Lifecycle operations\<close>

definition confirm_deletion :: "string \<Rightarrow> nat \<Rightarrow> world \<Rightarrow> (error + bool) \<times> world" where
  "confirm_deletion name sz w =
     (case input (print [AboutToDelete name sz] w) of
        (Inl err, w1) \<Rightarrow> (Inl err, w1)
      | (Inr line, w1) \<Rightarrow> (Inr (lower (strip line) = ''y''), w1))"

text \<open>The \<^verbatim>\<open>try\<close> block of \<^verbatim>\<open>delete_material\<close>: every exception of the removal is caught.\<close>

definition delete_material_try :: "material \<Rightarrow> world \<Rightarrow> (error + bool) \<times> world" where
  "delete_material_try material w =
     (case rmtree (disk w) (m_path material) of
        (None, d) \<Rightarrow>
          (Inr True, print [Deleted (m_name material) (m_size material)] (w\<lparr>disk := d\<rparr>))
      | (Some err, d) \<Rightarrow>
          (Inr False, print [ErrorDeleting (m_name material) err] (w\<lparr>disk := d\<rparr>)))"

definition delete_material :: "material \<Rightarrow> bool \<Rightarrow> world \<Rightarrow> (error + bool) \<times> world" where
  "delete_material material force w =
     (if \<not> force then
        (case confirm_deletion (m_name material) (m_size material) w of
           (Inl err, w1) \<Rightarrow> (Inl err, w1)
         | (Inr confirmed, w1) \<Rightarrow>
             (if \<not> confirmed then (Inr False, print [Skipped] w1)
              else delete_material_try material w1))
      else delete_material_try material w)"

text \<open>The \<^verbatim>\<open>for mat in materials\<close> loop of \<^verbatim>\<open>cleanup_all\<close>, which removes without asking.\<close>

fun cleanup_all_loop :: "material list \<Rightarrow> nat \<Rightarrow> world \<Rightarrow> nat \<times> world" where
  "cleanup_all_loop [] deleted_count w = (deleted_count, w)"
| "cleanup_all_loop (mat # mats) deleted_count w =
     (case rmtree (disk w) (m_path mat) of
        (None, d) \<Rightarrow>
          cleanup_all_loop mats (deleted_count + 1)
            (print [Deleted (m_name mat) (m_size mat)] (w\<lparr>disk := d\<rparr>))
      | (Some err, d) \<Rightarrow>
          cleanup_all_loop mats deleted_count
            (print [ErrorDeleting (m_name mat) err] (w\<lparr>disk := d\<rparr>)))"

definition cleanup_all_run :: "material list \<Rightarrow> world \<Rightarrow> (error + unit) \<times> world" where
  "cleanup_all_run materials w =
     (case cleanup_all_loop materials 0 w of
        (deleted_count, w1) \<Rightarrow>
          (Inr (), print [DeletedCount deleted_count (length materials)] w1))"

definition cleanup_all :: "env \<Rightarrow> bool \<Rightarrow> world \<Rightarrow> (error + unit) \<times> world" where
  "cleanup_all e force w =
     (case list_materials e w of
        (Inl err, w1) \<Rightarrow> (Inl err, w1)
      | (Inr materials, w1) \<Rightarrow>
          (if materials = [] then (Inr (), w1)
           else
             (let w2 = print_materials_list e materials w1 in
              if \<not> force then
                (case input (print [WarningDeleteAll (length materials)] w2) of
                   (Inl err, w3) \<Rightarrow> (Inl err, w3)
                 | (Inr confirm, w3) \<Rightarrow>
                     (if strip confirm \<noteq> ''DELETE ALL'' then (Inr (), print [Cancelled] w3)
                      else cleanup_all_run materials w3))
              else cleanup_all_run materials w2)))"

text \<open>
  \<^verbatim>\<open>cleanup_specific\<close>, for a name that is a single path component, so that the
  candidate \<^verbatim>\<open>materials_dir / name\<close> is the entry of that name in the directory.
\<close>

definition cleanup_specific :: "env \<Rightarrow> string \<Rightarrow> bool \<Rightarrow> world \<Rightarrow> (error + bool) \<times> world" where
  "cleanup_specific e name force w =
     (let dirs0 = get_materials_dirs e (disk w);
          dirs = (if dirs0 = [] then [(get_materials_dir e (disk w), ''auto'')] else dirs0)
      in case find (\<lambda>(materials_dir, dir_mode). exists (disk w) (materials_dir @ [name])) dirs of
           None \<Rightarrow>
             (Inr False,
              print ([MaterialNotFound name, SearchedIn]
                     @ map (\<lambda>(materials_dir, dir_mode). SearchedDir materials_dir dir_mode) dirs) w)
         | Some (materials_dir, dir_mode) \<Rightarrow>
             (let target_path = materials_dir @ [name] in
              case get_dir_size (disk w) target_path of
                Inl err \<Rightarrow> (Inl err, w)
              | Inr sz \<Rightarrow>
                  delete_material
                    \<lparr>m_name = name, m_path = target_path, m_size = sz, m_mode = dir_mode\<rparr>
                    force (print [FoundIn dir_mode (parent target_path)] w)))"

text \<open>
  The bulk branch of the interactive session: after the phrase, each entry goes through
  \<^verbatim>\<open>delete_material(mat, force=False)\<close>.
\<close>

fun interactive_all_loop :: "material list \<Rightarrow> nat \<Rightarrow> world \<Rightarrow> (error + nat) \<times> world" where
  "interactive_all_loop [] deleted_count w = (Inr deleted_count, w)"
| "interactive_all_loop (mat # mats) deleted_count w =
     (case delete_material mat False w of
        (Inl err, w1) \<Rightarrow> (Inl err, w1)
      | (Inr ok, w1) \<Rightarrow>
          interactive_all_loop mats (if ok then deleted_count + 1 else deleted_count) w1)"

text \<open>Reading and removing never puts lines back on the input.\<close>

lemma stdin_print [simp]: "stdin (print ms w) = stdin w"
  by (simp add: print_def)

lemma disk_print [simp]: "disk (print ms w) = disk w"
  by (simp add: print_def)

lemma stdout_print [simp]: "stdout (print ms w) = stdout w @ ms"
  by (simp add: print_def)

lemma input_shorter: "input w = (Inr l, w1) \<Longrightarrow> length (stdin w1) < length (stdin w)"
  by (auto simp: input_def split: list.splits)

lemma input_not_longer: "input w = (r, w1) \<Longrightarrow> length (stdin w1) \<le> length (stdin w)"
  by (auto simp: input_def split: list.splits)

lemma delete_material_try_stdin: "delete_material_try m w = (r, w1) \<Longrightarrow> stdin w1 = stdin w"
  by (auto simp: delete_material_try_def split: prod.splits option.splits)

lemma delete_material_not_longer:
  "delete_material m force w = (r, w1) \<Longrightarrow> length (stdin w1) \<le> length (stdin w)"
  by (auto simp: delete_material_def confirm_deletion_def split: if_splits prod.splits sum.splits
      dest!: input_not_longer delete_material_try_stdin)

text \<open>
  The \<^verbatim>\<open>while True\<close> loop of \<^verbatim>\<open>interactive_cleanup\<close>. Every round reads a line, so the loop
  ends with the input at the latest, by \<^verbatim>\<open>EOFError\<close>. The list \<open>materials\<close> is the one taken
  before the loop; it is not scanned again.
\<close>

function interactive_loop :: "material list \<Rightarrow> world \<Rightarrow> (error + unit) \<times> world" where
  "interactive_loop materials w =
     (case input w of
        (Inl err, w1) \<Rightarrow> (Inl err, w1)
      | (Inr line, w1) \<Rightarrow>
          (let response = lower (strip line) in
           if response = ''quit'' then (Inr (), print [ExitingWithoutChanges] w1)
           else if response = ''all'' then
             (case input (print [WarningDeleteAll (length materials)] w1) of
                (Inl err, w2) \<Rightarrow> (Inl err, w2)
              | (Inr confirm, w2) \<Rightarrow>
                  (if strip confirm = ''DELETE ALL'' then
                     (case interactive_all_loop materials 0 w2 of
                        (Inl err, w3) \<Rightarrow> (Inl err, w3)
                      | (Inr deleted_count, w3) \<Rightarrow>
                          (Inr (), print [DeletedCount deleted_count (length materials)] w3))
                   else (Inr (), print [Cancelled] w2)))
           else
             (case py_int response of
                None \<Rightarrow> interactive_loop materials (print [InvalidInput] w1)
              | Some i \<Rightarrow>
                  (let index = i - 1 in
                   if 0 \<le> index \<and> index < int (length materials) then
                     (case delete_material (materials ! nat index) False w1 of
                        (Inl err, w2) \<Rightarrow> (Inl err, w2)
                      | (Inr ok, w2) \<Rightarrow> interactive_loop materials w2)
                   else interactive_loop materials (print [InvalidIndex (length materials)] w1)))))"
  by pat_completeness auto
termination
proof (relation "measure (\<lambda>(materials, w). length (stdin w))", goal_cases)
  case 1
  show ?case by simp
next
  case (2 materials w x y b xa)
  then show ?case using input_shorter[of w b y] by simp
next
  case (3 materials w x y b xa x2 xb xc ya ba)
  then have "length (stdin y) < length (stdin w)"
    using input_shorter[of w b y] by simp
  moreover from 3 have "length (stdin ya) \<le> length (stdin y)"
    using delete_material_not_longer[of "materials ! nat xb" False y xc ya] by simp
  ultimately show ?case by simp
next
  case (4 materials w x y b xa x2 xb)
  then show ?case using input_shorter[of w b y] by simp
qed

declare interactive_loop.simps [simp del]

definition interactive_cleanup :: "env \<Rightarrow> world \<Rightarrow> (error + unit) \<times> world" where
  "interactive_cleanup e w =
     (case list_materials e w of
        (Inl err, w1) \<Rightarrow> (Inl err, w1)
      | (Inr materials, w1) \<Rightarrow>
          (if materials = [] then (Inr (), w1)
           else interactive_loop materials (print [Options] (print_materials_list e materials w1))))"

text \<open>The parsed command line, and \<^verbatim>\<open>main\<close>.\<close>

record args =
  arg_name :: "string option"
  arg_list :: bool
  arg_all :: bool
  arg_force :: bool

definition main :: "env \<Rightarrow> args \<Rightarrow> world \<Rightarrow> (error + unit) \<times> world" where
  "main e a w =
     (let w0 = print [Banner] w in
      if arg_list a then
        (case list_materials e w0 of
           (Inl err, w1) \<Rightarrow> (Inl err, w1)
         | (Inr materials, w1) \<Rightarrow> (Inr (), print_materials_list e materials w1))
      else if arg_all a then cleanup_all e (arg_force a) w0
      else if arg_name a \<noteq> None \<and> arg_name a \<noteq> Some [] then
        (case cleanup_specific e (the (arg_name a)) (arg_force a) w0 of
           (Inl err, w1) \<Rightarrow> (Inl err, w1)
         | (Inr ok, w1) \<Rightarrow> (Inr (), w1))
      else interactive_cleanup e w0)"

section \<open>Creating directories and files\<close>

text \<open>
  \<^verbatim>\<open>Path.mkdir(parents=True, exist_ok=True)\<close>, the call with which the fetch script creates
  its output directory and, with it, a missing root. Missing ancestors are created; an
  existing directory is left alone; a file or a dangling link in the way is an error.
\<close>

fun mkdir_chain :: "path \<Rightarrow> node" where
  "mkdir_chain [] = Dir True []"
| "mkdir_chain (n # p) = Dir True [(n, mkdir_chain p)]"

fun mkdir :: "node \<Rightarrow> path \<Rightarrow> error + node" where
  "mkdir (Link t) p = (case mkdir t p of Inl err \<Rightarrow> Inl err | Inr t' \<Rightarrow> Inr (Link t'))"
| "mkdir Dangling p = Inl FileExistsError"
| "mkdir (File s) [] = Inl FileExistsError"
| "mkdir (File s) (n # p) = Inl NotADirectoryError"
| "mkdir (Dir r ks) [] = Inr (Dir r ks)"
| "mkdir (Dir r ks) (n # p) =
     (case map_of ks n of
        None \<Rightarrow> Inr (Dir r (ks @ [(n, mkdir_chain p)]))
      | Some c \<Rightarrow>
          (case mkdir c p of
             Inl err \<Rightarrow> Inl err
           | Inr c' \<Rightarrow> Inr (Dir r (AList.update n c' ks))))"


section \<open>Packaging\<close>

text \<open>
  \<^verbatim>\<open>skill_path.rglob('*')\<close>: the directories below the source directory in pre-order, the
  source directory first, and for each of them its entries. A link to a directory is listed
  but not entered; a directory that may not be read is passed over in silence. Each path is
  relative to the source directory and comes with its node.
\<close>

function rglob_dirs :: "path \<Rightarrow> node \<Rightarrow> (path \<times> (string \<times> node) list) list"
  and rglob_subdirs :: "path \<Rightarrow> (string \<times> node) list \<Rightarrow> (path \<times> (string \<times> node) list) list" where
  "rglob_dirs rel (Dir r ks) = (if r then (rel, ks) # rglob_subdirs rel ks else [])"
| "rglob_dirs rel (File s) = []"
| "rglob_dirs rel (Link t) = []"
| "rglob_dirs rel Dangling = []"
| "rglob_subdirs rel [] = []"
| "rglob_subdirs rel ((n, c) # ks) =
     (case c of Dir r' ks' \<Rightarrow> rglob_dirs (rel @ [n]) c | _ \<Rightarrow> []) @ rglob_subdirs rel ks"
  by pat_completeness auto
termination
  by (relation "measure (\<lambda>x. case x of Inl (rel, t) \<Rightarrow> size t
        | Inr (rel, ks) \<Rightarrow> size_list (size_prod (\<lambda>n. 0) size) ks)") auto




definition allowed_files :: "string set" where
  "allowed_files = {''SKILL.md''}"





section \<open>Reference notions for the size walk\<close>

text \<open>
  The bytes of all regular files in a directory tree, counted whatever the permissions are
  and without entering links: what the size walk would give if it could read everything.
\<close>

function bytes_below :: "node \<Rightarrow> nat"
  and bytes_of_entries :: "(string \<times> node) list \<Rightarrow> nat" where
  "bytes_below (Dir r ks) = bytes_of_entries ks"
| "bytes_below (File s) = 0"
| "bytes_below (Link t) = 0"
| "bytes_below Dangling = 0"
| "bytes_of_entries [] = 0"
| "bytes_of_entries ((n, c) # ks) =
     (case c of
        File s \<Rightarrow> s
      | Dir r ks' \<Rightarrow> bytes_below c
      | _ \<Rightarrow> 0) + bytes_of_entries ks"
  by pat_completeness auto
termination
  by (relation "measure (\<lambda>x. case x of Inl t \<Rightarrow> size t
        | Inr ks \<Rightarrow> size_list (size_prod (\<lambda>n. 0) size) ks)") auto

text \<open>Every directory of the tree, links not entered, may be read.\<close>

function all_readable :: "node \<Rightarrow> bool"
  and all_readable_entries :: "(string \<times> node) list \<Rightarrow> bool" where
  "all_readable (Dir r ks) = (r \<and> all_readable_entries ks)"
| "all_readable (File s) = True"
| "all_readable (Link t) = True"
| "all_readable Dangling = True"
| "all_readable_entries [] = True"
| "all_readable_entries ((n, c) # ks) = (all_readable c \<and> all_readable_entries ks)"
  by pat_completeness auto
termination
  by (relation "measure (\<lambda>x. case x of Inl t \<Rightarrow> size t
        | Inr ks \<Rightarrow> size_list (size_prod (\<lambda>n. 0) size) ks)") auto

text \<open>The tree with every link inside it cut off from its target.\<close>

function cut_links :: "node \<Rightarrow> node"
  and cut_links_entries :: "(string \<times> node) list \<Rightarrow> (string \<times> node) list" where
  "cut_links (Dir r ks) = Dir r (cut_links_entries ks)"
| "cut_links (File s) = File s"
| "cut_links (Link t) = Dangling"
| "cut_links Dangling = Dangling"
| "cut_links_entries [] = []"
| "cut_links_entries ((n, c) # ks) = (n, cut_links c) # cut_links_entries ks"
  by pat_completeness auto
termination
  by (relation "measure (\<lambda>x. case x of Inl t \<Rightarrow> size t
        | Inr ks \<Rightarrow> size_list (size_prod (\<lambda>n. 0) size) ks)") auto

section \<open>Reference notions for removal\<close>

text \<open>
  A name that is one path component: not empty, not \<^verbatim>\<open>.\<close> or \<^verbatim>\<open>..\<close>, and without a
  separator. Every entry name is one. For such a name \<^verbatim>\<open>materials_dir / name\<close> is the path
  \<open>materials_dir @ [name]\<close>; other names, which \<^verbatim>\<open>pathlib\<close> would resolve outside the
  directory, are outside this development.
\<close>

definition plain_name :: "string \<Rightarrow> bool" where
  "plain_name n = (n \<noteq> [] \<and> n \<noteq> ''.'' \<and> n \<noteq> ''..'' \<and> CHR ''/'' \<notin> set n)"

text \<open>Two paths of which neither lies at or below the other.\<close>

definition unrelated :: "path \<Rightarrow> path \<Rightarrow> bool" where
  "unrelated p q = (\<not> prefix p q \<and> \<not> prefix q p)"


text \<open>
  Bulk deletion in the words of the specification: each entry in turn goes through the
  single-entry primitive with confirmation skipped, a failure does not stop the batch, and
  the outcome of every entry is recorded.
\<close>

fun delete_each_forced :: "material list \<Rightarrow> world \<Rightarrow> bool list \<times> world" where
  "delete_each_forced [] w = ([], w)"
| "delete_each_forced (mat # mats) w =
     (case delete_material mat True w of
        (r, w1) \<Rightarrow>
          (case delete_each_forced mats w1 of
             (bs, w2) \<Rightarrow> ((r = Inr True) # bs, w2)))"

section \<open>Reference notions for packaging\<close>


section \<open>Example file systems\<close>

text \<open>A project \<^verbatim>\<open>/home/u/proj\<close> under version control, with a nested source directory.\<close>

definition demo_fs :: node where
  "demo_fs = Dir True [(''home'', Dir True [(''u'', Dir True
      [(''proj'', Dir True [(''.git'', Dir True []),
                           (''src'', Dir True [(''deep'', Dir True [])])])])])]"

text \<open>The process that works in \<^verbatim>\<open>/home/u/proj/src\<close>; neither material root exists.\<close>

definition demo_env :: env where
  "demo_env = \<lparr>cwd = [''home'', ''u'', ''proj'', ''src''], home = [''home'', ''u''],
      script_file = [''home'', ''u'', ''skill-forge'', ''scripts'', ''fetch_source.py'']\<rparr>"

definition demo_world :: world where
  "demo_world = \<lparr>disk = demo_fs, stdin = [], stdout = []\<rparr>"

text \<open>
  The tool installed in \<^verbatim>\<open>/home/u/work/skill-forge\<close>, itself a repository, inside the
  repository \<^verbatim>\<open>/home/u/work\<close>; the process works in the tool's \<^verbatim>\<open>scripts\<close> directory.
\<close>

definition tool_fs :: node where
  "tool_fs = Dir True [(''home'', Dir True [(''u'', Dir True
      [(''work'', Dir True
          [(''.git'', Dir True []),
           (''skill-forge'', Dir True
              [(''.git'', Dir True []),
               (''SKILL.md'', File 100),
               (''scripts'', Dir True [(''fetch_source.py'', File 1),
                                      (''cleanup_materials.py'', File 1)])])])])])]"

definition tool_env :: env where
  "tool_env = \<lparr>cwd = [''home'', ''u'', ''work'', ''skill-forge'', ''scripts''],
      home = [''home'', ''u''],
      script_file = [''home'', ''u'', ''work'', ''skill-forge'', ''scripts'', ''fetch_source.py'']\<rparr>"

text \<open>
  A material entry with an unreadable subdirectory and a link, and a disk on which both roots
  exist: the project root holds \<^verbatim>\<open>x\<close> and the hidden \<^verbatim>\<open>.cache\<close>, the global root holds
  \<^verbatim>\<open>x\<close>, \<^verbatim>\<open>alpha\<close> and a plain file.
\<close>

definition alpha_dir :: node where
  "alpha_dir = Dir True
     [(''a.txt'', File 7),
      (''secret'', Dir False [(''big'', File 1000)]),
      (''lnk'', Link (Dir True [(''t'', File 50)])),
      (''sub'', Dir True [(''b'', File 3)])]"

definition stocked_fs :: node where
  "stocked_fs = Dir True [(''home'', Dir True [(''u'', Dir True
      [(''proj'', Dir True
          [(''.git'', Dir True []),
           (''.claude'', Dir True [(''temp-materials'', Dir True
              [(''x'', Dir True [(''a'', File 10)]),
               (''.cache'', Dir True [(''c'', File 5)])])])]),
       (''skill-materials'', Dir True
          [(''x'', Dir True [(''b'', File 20)]),
           (''alpha'', alpha_dir),
           (''notes.txt'', File 3)])])])]"

definition stocked_env :: env where
  "stocked_env = \<lparr>cwd = [''home'', ''u'', ''proj''], home = [''home'', ''u''],
      script_file = [''home'', ''u'', ''skill-forge'', ''scripts'', ''fetch_source.py'']\<rparr>"

text \<open>The process that works in \<^verbatim>\<open>/home/u/proj\<close> on that disk, its two roots and its inventory.\<close>

definition stocked_world :: world where
  "stocked_world = \<lparr>disk = stocked_fs, stdin = [], stdout = []\<rparr>"

definition stocked_project :: path where
  "stocked_project = [''home'', ''u'', ''proj'', ''.claude'', ''temp-materials'']"

definition stocked_global :: path where
  "stocked_global = [''home'', ''u'', ''skill-materials'']"

definition stocked_materials :: "material list" where
  "stocked_materials =
     [\<lparr>m_name = ''x'', m_path = stocked_project @ [''x''], m_size = 10, m_mode = ''project''\<rparr>,
      \<lparr>m_name = ''alpha'', m_path = stocked_global @ [''alpha''], m_size = 10, m_mode = ''global''\<rparr>,
      \<lparr>m_name = ''x'', m_path = stocked_global @ [''x''], m_size = 20, m_mode = ''global''\<rparr>]"

text \<open>The same disk with lines waiting on the input.\<close>

definition stocked_typing :: "string list \<Rightarrow> world" where
  "stocked_typing lines = \<lparr>disk = stocked_fs, stdin = lines, stdout = []\<rparr>"

text \<open>The first example disk after the global root was created, and after the project root was.\<close>

definition demo_fs_global :: node where
  "demo_fs_global = Dir True [(''home'', Dir True [(''u'', Dir True
      [(''proj'', Dir True [(''.git'', Dir True []),
                           (''src'', Dir True [(''deep'', Dir True [])])]),
       (''skill-materials'', Dir True [])])])]"

definition demo_fs_project :: node where
  "demo_fs_project = Dir True [(''home'', Dir True [(''u'', Dir True
      [(''proj'', Dir True [(''.git'', Dir True []),
                           (''src'', Dir True [(''deep'', Dir True [])]),
                           (''.claude'', Dir True [(''temp-materials'', Dir True [])])])])])]"




section \<open>Paths and lookups\<close>

lemma resolve_idem: "resolve t = Some t' \<Longrightarrow> resolve t' = Some t'"
  by (induction t) auto

lemma resolve_not_link: "resolve t = Some t' \<Longrightarrow> (\<exists>s. t' = File s) \<or> (\<exists>r ks. t' = Dir r ks)"
  by (induction t) auto

lemma lookup_resolved: "resolve t = Some t' \<Longrightarrow> lookup t' p = lookup t p"
  by (cases p) (simp_all add: resolve_idem)

lemma lookup_append:
  "lookup t (p @ q) = (case lookup t p of None \<Rightarrow> None | Some t' \<Rightarrow> lookup t' q)"
proof (induction p arbitrary: t)
  case Nil
  show ?case by (cases "resolve t") (simp_all add: lookup_resolved, cases q, simp_all)
next
  case (Cons n p)
  show ?case by (simp add: Cons.IH split: option.splits node.splits)
qed

lemma exists_append: "exists fs (p @ q) \<Longrightarrow> exists fs p"
  by (simp add: exists_def lookup_append split: option.splits)

lemma exists_prefix: "exists fs p \<Longrightarrow> prefix q p \<Longrightarrow> exists fs q"
  by (auto simp: prefix_def dest: exists_append)

section \<open>Properties of the boundary search\<close>

lemma walked_dirs_Nil: "walked_dirs [] = []"
  by (simp add: walked_dirs_def)

lemma walked_dirs_snoc: "walked_dirs (p @ [n]) = (p @ [n]) # walked_dirs p"
  by (cases "prefixes p") (simp_all add: walked_dirs_def)

lemma parent_snoc: "parent (p @ [n]) = p"
  by (simp add: parent_def)

lemma find_project_root_walk_Nil: "find_project_root_walk fs [] = None"
  by (subst find_project_root_walk.simps) (simp add: parent_def)

lemma find_project_root_walk_snoc:
  "find_project_root_walk fs (p @ [n]) =
     (if has_marker fs (p @ [n]) then Some (p @ [n]) else find_project_root_walk fs p)"
  by (subst find_project_root_walk.simps) (simp add: parent_snoc has_marker_def)

lemma find_project_root_walk_find:
  "find_project_root_walk fs start = find (has_marker fs) (walked_dirs start)"
  by (induction start rule: rev_induct)
    (simp_all add: find_project_root_walk_Nil find_project_root_walk_snoc walked_dirs_Nil walked_dirs_snoc)

lemma fetch_walk_Nil: "fetch_find_project_root_walk e fs [] = None"
  by (subst fetch_find_project_root_walk.simps) (simp add: parent_def)

lemma fetch_walk_snoc:
  "fetch_find_project_root_walk e fs (p @ [n]) =
     (if has_marker fs (p @ [n]) \<and> \<not> (is_skill_forge_dir e fs \<and> p @ [n] = script_dir e)
      then Some (p @ [n]) else fetch_find_project_root_walk e fs p)"
  by (subst fetch_find_project_root_walk.simps, simp only: parent_snoc) (simp add: has_marker_def)

lemma fetch_walk_find:
  "fetch_find_project_root_walk e fs start =
     find (\<lambda>d. has_marker fs d \<and> \<not> (is_skill_forge_dir e fs \<and> d = script_dir e)) (walked_dirs start)"
  by (induction start rule: rev_induct)
    (auto simp: fetch_walk_Nil fetch_walk_snoc walked_dirs_Nil walked_dirs_snoc)




section \<open>The tool's own directory\<close>

text \<open>
  The fetch script never answers with the tool's own directory, and from that directory it
  goes on with the parent.
\<close>

lemma fetch_never_script_dir:
  "is_skill_forge_dir e fs \<Longrightarrow> fetch_find_project_root e fs start \<noteq> Some (script_dir e)"
  by (auto simp: fetch_find_project_root_def fetch_walk_find find_Some_iff)

lemma parent_neq: "p \<noteq> [] \<Longrightarrow> p \<noteq> parent p"
  by (cases p rule: rev_cases) (auto simp: parent_def)

lemma fetch_skips_script_dir:
  "is_skill_forge_dir e fs \<Longrightarrow> has_marker fs (script_dir e) \<Longrightarrow> script_dir e \<noteq> [] \<Longrightarrow>
   fetch_find_project_root_walk e fs (script_dir e) =
     fetch_find_project_root_walk e fs (parent (script_dir e))"
  by (subst fetch_find_project_root_walk.simps) (auto simp: has_marker_def dest: parent_neq)

text \<open>
  Claim C1. Started inside the tool's own directory, which holds a marker, the search of the
  fetch script steps over it and returns the repository above, while the search of the cleanup
  script, used by listing and cleanup, returns the tool's own directory.
\<close>

theorem cleanup_search_returns_tool_dir:
  "script_dir tool_env = [''home'', ''u'', ''work'', ''skill-forge'']
   \<and> is_skill_forge_dir tool_env tool_fs
   \<and> find_project_root tool_env tool_fs None = Some [''home'', ''u'', ''work'', ''skill-forge'']
   \<and> fetch_find_project_root tool_env tool_fs None = Some [''home'', ''u'', ''work'']"
proof -
  have s: "script_dir tool_env = [''home'', ''u'', ''work'', ''skill-forge'']"
    by (simp add: script_dir_def tool_env_def parent_def)
  have i: "is_skill_forge_dir tool_env tool_fs"
    by (simp add: is_skill_forge_dir_def s basename_def) (simp add: exists_def tool_fs_def)
  have c: "find_project_root tool_env tool_fs None = Some [''home'', ''u'', ''work'', ''skill-forge'']"
    by (simp add: find_project_root_def tool_env_def find_project_root_walk.simps parent_def
        exists_def tool_fs_def)
  have f: "fetch_find_project_root tool_env tool_fs None = Some [''home'', ''u'', ''work'']"
    by (simp add: fetch_find_project_root_def fetch_walk_find walked_dirs_def s i has_marker_def)
       (simp add: tool_env_def exists_def tool_fs_def)
  from s i c f show ?thesis by simp
qed

section \<open>The fallback of \<^verbatim>\<open>cleanup_specific\<close>\<close>

lemma get_materials_dirs_Nil:
  "get_materials_dirs e fs = [] \<Longrightarrow> \<not> exists fs (get_materials_dir e fs)"
  by (auto simp: get_materials_dirs_def get_materials_dir_def Let_def
      split: option.splits if_splits)

lemma get_materials_dir_default:
  "get_materials_dirs e fs = [] \<Longrightarrow>
   get_materials_dir e fs =
     (case find_project_root e fs None of
        Some project_root \<Rightarrow> project_root @ [''.claude'', ''temp-materials'']
      | None \<Rightarrow> home e @ [''skill-materials''])"
  by (simp add: get_materials_dir_def)

text \<open>
  Claim C10, as amended, for a name that is a single path component. When no root exists,
  \<^verbatim>\<open>cleanup_specific\<close> searches one more
  place, labelled \<^verbatim>\<open>auto\<close>: the project path if a boundary is found, else the global path.
  That place is one of the roots just found missing, so nothing is found in it: the
  operation answers \<^verbatim>\<open>False\<close>, prints the not-found report naming that one place, and
  leaves the disk and the input as they were.
\<close>

theorem auto_fallback_reports_not_found:
  "plain_name name \<Longrightarrow> get_materials_dirs e (disk w) = [] \<Longrightarrow>
   cleanup_specific e name force w =
     (Inr False,
      print [MaterialNotFound name, SearchedIn,
             SearchedDir (get_materials_dir e (disk w)) ''auto''] w)
   \<and> get_materials_dir e (disk w) =
       (case find_project_root e (disk w) None of
          Some project_root \<Rightarrow> project_root @ [''.claude'', ''temp-materials'']
        | None \<Rightarrow> home e @ [''skill-materials''])"
proof -
  assume "plain_name name"
  assume a: "get_materials_dirs e (disk w) = []"
  then have "\<not> exists (disk w) (get_materials_dir e (disk w) @ [name])"
    using get_materials_dirs_Nil exists_append by blast
  with a show ?thesis
    by (simp add: cleanup_specific_def get_materials_dir_default)
qed

lemma demo_root: "find_project_root demo_env demo_fs None = Some [''home'', ''u'', ''proj'']"
  by (simp add: find_project_root_def demo_env_def demo_fs_def
      find_project_root_walk.simps parent_def exists_def)

lemma demo_dirs: "get_materials_dirs demo_env demo_fs = []"
  by (simp add: get_materials_dirs_def demo_root) (simp add: demo_env_def demo_fs_def exists_def)

text \<open>The theorem at work in \<^verbatim>\<open>/home/u/proj/src\<close>, where no root exists.\<close>

theorem auto_fallback_reports_not_found_witness:
  "cleanup_specific demo_env ''x'' True demo_world =
     (Inr False,
      print [MaterialNotFound ''x'', SearchedIn,
             SearchedDir [''home'', ''u'', ''proj'', ''.claude'', ''temp-materials''] ''auto'']
        demo_world)"
proof -
  have p: "plain_name ''x''" by code_simp
  have d: "get_materials_dirs demo_env (disk demo_world) = []"
    using demo_dirs by (simp add: demo_world_def)
  from auto_fallback_reports_not_found[OF p d, of True] demo_root show ?thesis
    by (simp add: demo_world_def)
qed

text \<open>
  Claim C10 as stated fails: with no root on disk, the forced removal of \<^verbatim>\<open>x\<close> finds and
  removes nothing.
\<close>

theorem auto_fallback_finds_nothing:
  "plain_name ''x''
   \<and> get_materials_dirs demo_env (disk demo_world) = []
   \<and> fst (cleanup_specific demo_env ''x'' True demo_world) = Inr False
   \<and> disk (snd (cleanup_specific demo_env ''x'' True demo_world)) = disk demo_world
   \<and> stdout (snd (cleanup_specific demo_env ''x'' True demo_world)) =
       [MaterialNotFound ''x'', SearchedIn,
        SearchedDir [''home'', ''u'', ''proj'', ''.claude'', ''temp-materials''] ''auto'']"
  by code_simp

section \<open>The size walk\<close>

lemma size_le_bytes:
  "get_dir_size_dir t \<le> bytes_below t"
  "get_dir_size_entries ks \<le> bytes_of_entries ks"
proof (induction t and ks rule: get_dir_size_dir_get_dir_size_entries.induct)
  case (6 n c ks)
  show ?case
  proof (cases c)
    case (Dir r ks')
    with 6 show ?thesis by (simp add: add_mono)
  qed (use 6 in simp_all)
qed simp_all

lemma size_eq_bytes:
  "all_readable t \<Longrightarrow> get_dir_size_dir t = bytes_below t"
  "all_readable_entries ks \<Longrightarrow> get_dir_size_entries ks = bytes_of_entries ks"
  by (induction t and ks rule: get_dir_size_dir_get_dir_size_entries.induct)
     (auto split: node.splits)

lemma size_cut_links:
  "get_dir_size_dir (cut_links t) = get_dir_size_dir t"
  "get_dir_size_entries (cut_links_entries ks) = get_dir_size_entries ks"
  by (induction t and ks rule: get_dir_size_dir_get_dir_size_entries.induct)
     (auto split: node.splits)

lemma get_dir_size_is_dir:
  "is_dir fs p \<Longrightarrow> \<exists>r ks. lookup fs p = Some (Dir r ks) \<and> get_dir_size fs p = Inr (get_dir_size_dir (Dir r ks))"
  by (auto simp: is_dir_def get_dir_size_def split: option.splits node.splits)

lemma list_materials_items_total:
  "\<exists>ms. list_materials_items fs d mode ns = Inr ms"
proof (induction ns)
  case Nil
  show ?case by simp
next
  case (Cons n ns)
  then obtain ms where ms: "list_materials_items fs d mode ns = Inr ms" by blast
  show ?case
  proof (cases "is_dir fs (d @ [n]) \<and> \<not> startswith n ''.''")
    case True
    then obtain r ks where "get_dir_size fs (d @ [n]) = Inr (get_dir_size_dir (Dir r ks))"
      using get_dir_size_is_dir by blast
    with True ms show ?thesis by (simp add: Let_def)
  next
    case False
    with ms show ?thesis by (auto simp: Let_def)
  qed
qed

text \<open>
  Claim C8. The size walk never raises: a directory that may not be read counts as 0 and the
  walk goes on with the next entry, so the result is a partial total, at most the bytes of
  all files below and equal to them when every directory may be read. A link adds nothing
  and its target is never looked at. For a path that leads to a directory the call returns
  a number, and the loop of the listing over the entries of a root always returns a list.
\<close>

theorem size_walk_skips_unreadable:
  "get_dir_size_dir (Dir False ks) = 0
   \<and> get_dir_size_entries ((n, Dir False ks') # ks) = get_dir_size_entries ks
   \<and> get_dir_size_entries ((n, Link t) # ks) = get_dir_size_entries ks
   \<and> get_dir_size_dir (Dir r ks) \<le> bytes_below (Dir r ks)
   \<and> (all_readable (Dir r ks) \<longrightarrow> get_dir_size_dir (Dir r ks) = bytes_below (Dir r ks))
   \<and> get_dir_size_dir (cut_links (Dir r ks)) = get_dir_size_dir (Dir r ks)
   \<and> (lookup fs p = Some (Dir r ks) \<longrightarrow> get_dir_size fs p = Inr (get_dir_size_dir (Dir r ks)))
   \<and> (\<exists>ms. list_materials_items fs d mode ns = Inr ms)"
proof -
  have "get_dir_size_dir (Dir r ks) \<le> bytes_below (Dir r ks)"
    by (rule size_le_bytes)
  moreover have "all_readable (Dir r ks) \<longrightarrow> get_dir_size_dir (Dir r ks) = bytes_below (Dir r ks)"
    using size_eq_bytes(1) by blast
  moreover have "get_dir_size_dir (cut_links (Dir r ks)) = get_dir_size_dir (Dir r ks)"
    by (rule size_cut_links)
  moreover have "lookup fs p = Some (Dir r ks) \<longrightarrow> get_dir_size fs p = Inr (get_dir_size_dir (Dir r ks))"
    by (simp add: get_dir_size_def)
  moreover have "\<exists>ms. list_materials_items fs d mode ns = Inr ms"
    by (rule list_materials_items_total)
  ultimately show ?thesis by simp
qed

lemma stocked_alpha:
  "lookup stocked_fs [''home'', ''u'', ''skill-materials'', ''alpha''] = Some alpha_dir"
  by (simp add: stocked_fs_def) (simp add: alpha_dir_def)

text \<open>The entry \<^verbatim>\<open>alpha\<close>: 10 of its 1010 bytes are counted.\<close>

theorem size_walk_skips_unreadable_witness:
  "get_dir_size stocked_fs [''home'', ''u'', ''skill-materials'', ''alpha''] = Inr 10
   \<and> bytes_below alpha_dir = 1010
   \<and> get_dir_size_dir (Dir True [(''b'', File 3)]) = bytes_below (Dir True [(''b'', File 3)])"
proof -
  note t = size_walk_skips_unreadable[THEN conjunct2, THEN conjunct2, THEN conjunct2,
      THEN conjunct2]
  have l: "lookup stocked_fs [''home'', ''u'', ''skill-materials'', ''alpha'']
      = Some (Dir True
     [(''a.txt'', File 7),
      (''secret'', Dir False [(''big'', File 1000)]),
      (''lnk'', Link (Dir True [(''t'', File 50)])),
      (''sub'', Dir True [(''b'', File 3)])])"
    using stocked_alpha by (simp add: alpha_dir_def)
  have "get_dir_size stocked_fs [''home'', ''u'', ''skill-materials'', ''alpha''] = Inr 10"
    using t[THEN conjunct2, THEN conjunct2, THEN conjunct1, THEN mp, OF l] by simp
  moreover have "bytes_below alpha_dir = 1010" by (simp add: alpha_dir_def)
  moreover have "all_readable (Dir True [(''b'', File 3)])" by simp
  then have "get_dir_size_dir (Dir True [(''b'', File 3)]) = bytes_below (Dir True [(''b'', File 3)])"
    by (rule t[THEN conjunct1, THEN mp])
  ultimately show ?thesis by simp
qed

section \<open>What a removal leaves alone\<close>

lemma lookup_Link [simp]: "lookup (Link t) q = lookup t q"
  by (cases q) simp_all

lemma lookup_Dir_Cons:
  "lookup (Dir r ks) (m # q) = (case map_of ks m of Some c \<Rightarrow> lookup c q | None \<Rightarrow> None)"
  by simp

lemma unrelated_Cons:
  "unrelated (n # p) q \<Longrightarrow> \<exists>m q'. q = m # q' \<and> (m \<noteq> n \<or> unrelated p q')"
  by (cases q) (auto simp: unrelated_def)

lemma rmtree_frame:
  "unrelated p q \<Longrightarrow> lookup (snd (rmtree t p)) q = lookup t q"
proof (induction t p arbitrary: q rule: rmtree.induct)
  case (1 t)
  then show ?case by simp
next
  case (2 t n p)
  then show ?case by (simp add: case_prod_unfold)
next
  case (3 n p)
  then show ?case by simp
next
  case (4 s n p)
  then show ?case by simp
next
  case (5 r ks n)
  from 5 obtain m q' where q: "q = m # q'" "m \<noteq> n"
    by (cases q) (auto simp: unrelated_def)
  then show ?case
    by (auto simp: update_conv' map_of_delete split: option.splits node.splits prod.splits)
next
  case (6 r ks n n' p)
  from 6(2) obtain m q' where q: "q = m # q'" "m \<noteq> n \<or> unrelated (n' # p) q'"
    using unrelated_Cons by blast
  show ?case
  proof (cases "map_of ks n")
    case None
    then show ?thesis by simp
  next
    case (Some c)
    show ?thesis
    proof (cases "m = n")
      case True
      with q have u: "unrelated (n' # p) q'" by simp
      from 6(1)[OF Some u] Some True q show ?thesis
        by (simp add: update_conv' case_prod_unfold)
    next
      case False
      with Some q show ?thesis by (simp add: update_conv' case_prod_unfold)
    qed
  qed
qed


lemma rmtree_absent:
  "lookup t p = None \<Longrightarrow> snd (rmtree t p) = t"
proof (induction t p rule: rmtree.induct)
  case (5 r ks n)
  then show ?case
    by (auto split: option.splits node.splits prod.splits if_splits)
next
  case (6 r ks n n' p)
  then show ?case
    by (auto simp: update_triv case_prod_unfold split: option.splits)
qed (auto simp: case_prod_unfold)

lemma disk_input [simp]: "disk (snd (input w)) = disk w"
  by (simp add: input_def split: list.splits)

lemma disk_confirm_deletion [simp]: "disk (snd (confirm_deletion n s w)) = disk w"
  by (simp add: confirm_deletion_def input_def split: list.splits)

lemma disk_print_materials_list [simp]: "disk (print_materials_list e ms w) = disk w"
  by (simp add: print_materials_list_def Let_def)

lemma stdin_print_materials_list [simp]: "stdin (print_materials_list e ms w) = stdin w"
  by (simp add: print_materials_list_def Let_def)

lemma disk_list_materials [simp]: "disk (snd (list_materials e w)) = disk w"
  by (simp add: list_materials_def Let_def)

lemma stdin_list_materials [simp]: "stdin (snd (list_materials e w)) = stdin w"
  by (simp add: list_materials_def Let_def)

lemma delete_material_try_frame:
  "unrelated (m_path m) q \<Longrightarrow> lookup (disk (snd (delete_material_try m w))) q = lookup (disk w) q"
  using rmtree_frame[of "m_path m" q "disk w"]
  by (auto simp: delete_material_try_def split: prod.splits option.splits)

lemma delete_material_frame:
  "unrelated (m_path m) q \<Longrightarrow> lookup (disk (snd (delete_material m force w))) q = lookup (disk w) q"
proof -
  assume u: "unrelated (m_path m) q"
  have c: "\<And>w1. lookup (disk (snd (delete_material_try m w1))) q = lookup (disk w1) q"
    using u by (rule delete_material_try_frame)
  show ?thesis
  proof (cases force)
    case True
    then show ?thesis by (simp add: delete_material_def c)
  next
    case False
    obtain r w1 where cd: "confirm_deletion (m_name m) (m_size m) w = (r, w1)"
      by (cases "confirm_deletion (m_name m) (m_size m) w")
    then have d: "disk w1 = disk w"
      using disk_confirm_deletion[of "m_name m" "m_size m" w] by simp
    from False cd d c[of w1] show ?thesis
      by (auto simp: delete_material_def split: sum.splits)
  qed
qed

lemma cleanup_all_loop_frame:
  "\<forall>m\<in>set ms. unrelated (m_path m) q \<Longrightarrow>
   lookup (disk (snd (cleanup_all_loop ms k w))) q = lookup (disk w) q"
proof (induction ms arbitrary: k w)
  case Nil
  show ?case by simp
next
  case (Cons m ms)
  then have u: "unrelated (m_path m) q" and r: "\<forall>m\<in>set ms. unrelated (m_path m) q"
    by simp_all
  obtain err d where rm: "rmtree (disk w) (m_path m) = (err, d)"
    by (cases "rmtree (disk w) (m_path m)")
  with rmtree_frame[OF u, of "disk w"] have "lookup d q = lookup (disk w) q" by simp
  with rm Cons.IH[OF r] show ?case
    by (cases err) simp_all
qed

lemma interactive_all_loop_frame:
  "\<forall>m\<in>set ms. unrelated (m_path m) q \<Longrightarrow>
   lookup (disk (snd (interactive_all_loop ms k w))) q = lookup (disk w) q"
proof (induction ms arbitrary: k w)
  case Nil
  show ?case by simp
next
  case (Cons m ms)
  then have u: "unrelated (m_path m) q" and r: "\<forall>m\<in>set ms. unrelated (m_path m) q"
    by simp_all
  obtain res w1 where dm: "delete_material m False w = (res, w1)"
    by (cases "delete_material m False w")
  with delete_material_frame[OF u, of False w] have "lookup (disk w1) q = lookup (disk w) q"
    by simp
  with dm Cons.IH[OF r] show ?case
    by (cases res) simp_all
qed

lemma interactive_loop_frame:
  "\<forall>m\<in>set ms. unrelated (m_path m) q \<Longrightarrow>
   lookup (disk (snd (interactive_loop ms w))) q = lookup (disk w) q"
proof (induction ms w rule: interactive_loop.induct)
  case (1 materials w)
  note u = "1.prems"
  obtain x w1 where i: "input w = (x, w1)" by (cases "input w")
  then have d1: "disk w1 = disk w" using disk_input[of w] by simp
  show ?case
  proof (cases x)
    case (Inl err)
    with i d1 show ?thesis by (subst interactive_loop.simps) simp
  next
    case (Inr line)
    define response where "response = lower (strip line)"
    consider (quit) "response = ''quit''"
      | (all) "response \<noteq> ''quit''" "response = ''all''"
      | (bad) "response \<noteq> ''quit''" "response \<noteq> ''all''" "py_int response = None"
      | (num) i where "response \<noteq> ''quit''" "response \<noteq> ''all''" "py_int response = Some i"
      by (cases "py_int response") auto
    then show ?thesis
    proof cases
      case quit
      with i Inr d1 show ?thesis
        by (subst interactive_loop.simps) (simp add: response_def)
    next
      case all
      obtain y w2 where i2: "input (print [WarningDeleteAll (length materials)] w1) = (y, w2)"
        by (cases "input (print [WarningDeleteAll (length materials)] w1)")
      then have d2: "disk w2 = disk w"
        using disk_input[of "print [WarningDeleteAll (length materials)] w1"] d1 by simp
      obtain z w3 where l: "interactive_all_loop materials 0 w2 = (z, w3)"
        by (cases "interactive_all_loop materials 0 w2")
      with interactive_all_loop_frame[OF u, of 0 w2] d2
      have "lookup (disk w3) q = lookup (disk w) q" by simp
      with i Inr all i2 d2 l show ?thesis
        by (subst interactive_loop.simps)
           (auto simp: response_def[symmetric] Let_def split: sum.splits)
    next
      case bad
      from "1.IH"(1)[OF i[symmetric] Inr response_def bad(1,2,3) u] i Inr bad d1
      show ?thesis
        by (subst interactive_loop.simps) (simp add: response_def[symmetric] Let_def)
    next
      case (num k)
      show ?thesis
      proof (cases "0 \<le> k - 1 \<and> k - 1 < int (length materials)")
        case True
        obtain res w2 where dm: "delete_material (materials ! nat (k - 1)) False w1 = (res, w2)"
          by (cases "delete_material (materials ! nat (k - 1)) False w1")
        from True have "nat (k - 1) < length materials" by linarith
        then have "materials ! nat (k - 1) \<in> set materials" by (rule nth_mem)
        with u have "unrelated (m_path (materials ! nat (k - 1))) q" by blast
        from delete_material_frame[OF this, of False w1] dm d1
        have d2: "lookup (disk w2) q = lookup (disk w) q" by simp
        show ?thesis
        proof (cases res)
          case (Inl err)
          with i Inr num True dm d2 show ?thesis
            by (subst interactive_loop.simps) (simp add: response_def[symmetric] Let_def)
        next
          case (Inr ok)
          from "1.IH"(2)[OF i[symmetric] \<open>x = Inr line\<close> response_def num(1,2,3) refl True
              dm[symmetric] Inr u] d2
          have "lookup (disk (snd (interactive_loop materials w2))) q = lookup (disk w) q"
            by simp
          with i \<open>x = Inr line\<close> num True dm Inr show ?thesis
            by (subst interactive_loop.simps) (simp add: response_def[symmetric] Let_def)
        qed
      next
        case False
        from "1.IH"(3)[OF i[symmetric] Inr response_def num(1,2,3) refl False u] i Inr num d1 False
        show ?thesis
          by (subst interactive_loop.simps) (auto simp: response_def[symmetric] Let_def)
      qed
    qed
  qed
qed

section \<open>Properties of the inventory\<close>

lemma list_materials_items_names:
  "list_materials_items fs d mode ns = Inr ms \<Longrightarrow>
   map m_name ms = filter (\<lambda>n. is_dir fs (d @ [n]) \<and> \<not> startswith n ''.'') ns"
  by (induction ns arbitrary: ms) (auto simp: Let_def split: if_splits sum.splits)

lemma list_materials_items_fields:
  "list_materials_items fs d mode ns = Inr ms \<Longrightarrow> m \<in> set ms \<Longrightarrow>
   m_mode m = mode \<and> m_path m = d @ [m_name m] \<and> \<not> startswith (m_name m) ''.''
   \<and> is_dir fs (m_path m) \<and> get_dir_size fs (m_path m) = Inr (m_size m)"
  by (induction ns arbitrary: ms) (auto simp: Let_def split: if_splits sum.splits)

lemma list_materials_dirs_Cons:
  "list_materials_dirs fs ((d, mode) # dirs) = Inr ms \<Longrightarrow>
   \<exists>names a b. iterdir fs d = Inr names \<and> list_materials_items fs d mode (sort names) = Inr a
     \<and> list_materials_dirs fs dirs = Inr b \<and> ms = a @ b"
  by (auto split: sum.splits)

lemma list_materials_dirs_fields:
  "list_materials_dirs fs dirs = Inr ms \<Longrightarrow> m \<in> set ms \<Longrightarrow>
   (\<exists>d. (d, m_mode m) \<in> set dirs \<and> m_path m = d @ [m_name m])
   \<and> \<not> startswith (m_name m) ''.'' \<and> is_dir fs (m_path m)
   \<and> get_dir_size fs (m_path m) = Inr (m_size m)"
proof (induction dirs arbitrary: ms)
  case Nil
  then show ?case by simp
next
  case (Cons dm dirs)
  obtain d mode where dm: "dm = (d, mode)" by (cases dm)
  from Cons.prems(1) dm obtain names a b where
    ab: "list_materials_items fs d mode (sort names) = Inr a"
      "list_materials_dirs fs dirs = Inr b" "ms = a @ b"
    using list_materials_dirs_Cons by blast
  from Cons.prems(2) ab(3) consider "m \<in> set a" | "m \<in> set b" by auto
  then show ?case
  proof cases
    case 1
    from list_materials_items_fields[OF ab(1) 1] dm show ?thesis by auto
  next
    case 2
    from Cons.IH[OF ab(2) 2] show ?thesis by auto
  qed
qed

lemma get_materials_dirs_filter:
  "get_materials_dirs e fs =
     filter (\<lambda>(d, mode). exists fs d)
       ((case find_project_root e fs None of
           Some P \<Rightarrow> [(P @ [''.claude'', ''temp-materials''], ''project'')]
         | None \<Rightarrow> [])
        @ [(home e @ [''skill-materials''], ''global'')])"
  by (simp add: get_materials_dirs_def Let_def split: option.splits)

lemma get_materials_dirs_shape:
  "\<exists>ps gs. get_materials_dirs e fs = ps @ gs
     \<and> (ps = [] \<or> (\<exists>P. ps = [(P, ''project'')]))
     \<and> (gs = [] \<or> (\<exists>G. gs = [(G, ''global'')]))"
proof (cases "get_materials_dirs e fs")
  case Nil
  then show ?thesis by simp
next
  case (Cons a list)
  then consider P where "get_materials_dirs e fs = [(P, ''project'')]"
    | G where "get_materials_dirs e fs = [(G, ''global'')]"
    | P G where "get_materials_dirs e fs = [(P, ''project''), (G, ''global'')]"
    by (auto simp: get_materials_dirs_def Let_def split: option.splits if_splits)
  then show ?thesis
  proof cases
    case 1
    then have "get_materials_dirs e fs = [(P, ''project'')] @ []" by simp
    then show ?thesis by blast
  next
    case 2
    then have "get_materials_dirs e fs = [] @ [(G, ''global'')]" by simp
    then show ?thesis by blast
  next
    case 3
    then have "get_materials_dirs e fs = [(P, ''project'')] @ [(G, ''global'')]" by simp
    then show ?thesis by blast
  qed
qed

lemma get_materials_dirs_exist:
  "(d, mode) \<in> set (get_materials_dirs e fs) \<Longrightarrow> exists fs d"
  by (auto simp: get_materials_dirs_def Let_def split: option.splits if_splits)

lemma list_materials_result:
  "list_materials e w = (Inr ms, w1) \<Longrightarrow>
   disk w1 = disk w \<and> stdin w1 = stdin w
   \<and> list_materials_dirs (disk w) (get_materials_dirs e (disk w)) = Inr ms"
  by (auto simp: list_materials_def Let_def split: if_splits)

lemma list_materials_again:
  "disk w1 = disk w \<Longrightarrow> fst (list_materials e w1) = fst (list_materials e w)"
  by (simp add: list_materials_def Let_def)

lemma sorted_items:
  "list_materials_items fs d mode (sort names) = Inr a \<Longrightarrow> sorted (map m_name a)"
  by (simp add: list_materials_items_names sorted_wrt_filter)

lemma is_dir_listed:
  assumes "is_dir fs (d @ [x])" and "iterdir fs d = Inr names"
  shows "x \<in> set names"
proof -
  from assms(2) obtain r ks where l: "lookup fs d = Some (Dir r ks)" and n: "names = map fst ks"
    by (auto simp: iterdir_def split: option.splits node.splits if_splits)
  from assms(1) l have "map_of ks x \<noteq> None"
    by (auto simp: is_dir_def lookup_append split: option.splits)
  then have "x \<in> fst ` set ks" by (auto dest: map_of_SomeD intro: rev_image_eqI)
  with n show ?thesis by simp
qed

lemma listed_entry:
  assumes "list_materials_items fs d mode ns = Inr a" and "x \<in> set ns"
    and "is_dir fs (d @ [x])" and "\<not> startswith x ''.''"
  shows "\<exists>m\<in>set a. m_name m = x \<and> m_path m = d @ [x] \<and> m_mode m = mode"
proof -
  from assms have "x \<in> set (map m_name a)"
    by (simp add: list_materials_items_names)
  then obtain m where m: "m \<in> set a" "m_name m = x" by auto
  with list_materials_items_fields[OF assms(1) m(1)] show ?thesis by auto
qed

lemma list_one_root:
  "list_materials_dirs fs [(d, mode)] = Inr ms \<Longrightarrow>
   sorted (map m_name ms) \<and> (\<forall>m\<in>set ms. m_mode m = mode)"
proof -
  assume a: "list_materials_dirs fs [(d, mode)] = Inr ms"
  then obtain names where b: "list_materials_items fs d mode (sort names) = Inr ms"
    by (auto split: sum.splits)
  from sorted_items[OF b] list_materials_items_fields[OF b] show ?thesis by blast
qed

lemma list_two_roots:
  "list_materials_dirs fs ((d, mode) # dirs) = Inr ms \<Longrightarrow>
   \<exists>a b. ms = a @ b \<and> list_materials_dirs fs [(d, mode)] = Inr a
     \<and> list_materials_dirs fs dirs = Inr b"
  by (auto split: sum.splits)

lemma list_order:
  assumes "list_materials_dirs fs (get_materials_dirs e fs) = Inr ms"
  shows "\<exists>ps gs. ms = ps @ gs \<and> (\<forall>m\<in>set ps. m_mode m = ''project'')
     \<and> (\<forall>m\<in>set gs. m_mode m = ''global'')
     \<and> sorted (map m_name ps) \<and> sorted (map m_name gs)"
proof -
  obtain ps gs where s: "get_materials_dirs e fs = ps @ gs"
    "ps = [] \<or> (\<exists>P. ps = [(P, ''project'')])" "gs = [] \<or> (\<exists>G. gs = [(G, ''global'')])"
    using get_materials_dirs_shape by blast
  show ?thesis
  proof (cases "ps = []")
    case True
    show ?thesis
    proof (cases "gs = []")
      case True
      with \<open>ps = []\<close> s assms have "ms = [] @ []" by simp
      then show ?thesis by force
    next
      case False
      with s obtain G where "gs = [(G, ''global'')]" by blast
      with \<open>ps = []\<close> s assms list_one_root[of fs G "''global''" ms]
      have "ms = [] @ ms \<and> sorted (map m_name ms) \<and> (\<forall>m\<in>set ms. m_mode m = ''global'')"
        by simp
      then show ?thesis by force
    qed
  next
    case False
    with s obtain P where P: "ps = [(P, ''project'')]" by blast
    with s assms obtain a b where ab: "ms = a @ b"
      "list_materials_dirs fs [(P, ''project'')] = Inr a" "list_materials_dirs fs gs = Inr b"
      using list_two_roots[of fs P "''project''" gs ms] by auto
    from list_one_root[OF ab(2)] have a: "sorted (map m_name a)" "\<forall>m\<in>set a. m_mode m = ''project''"
      by simp_all
    have "sorted (map m_name b) \<and> (\<forall>m\<in>set b. m_mode m = ''global'')"
    proof (cases "gs = []")
      case True
      with ab(3) show ?thesis by simp
    next
      case False
      with s obtain G where "gs = [(G, ''global'')]" by blast
      with ab(3) list_one_root[of fs G "''global''" b] show ?thesis by simp
    qed
    with a ab(1) show ?thesis by blast
  qed
qed

lemma same_name_twice:
  assumes l: "list_materials_dirs fs [(P, ''project''), (G, ''global'')] = Inr ms"
    and p: "is_dir fs (P @ [x])" and g: "is_dir fs (G @ [x])" and v: "\<not> startswith x ''.''"
  shows "(\<exists>m\<in>set ms. m_name m = x \<and> m_path m = P @ [x] \<and> m_mode m = ''project'')
     \<and> (\<exists>m\<in>set ms. m_name m = x \<and> m_path m = G @ [x] \<and> m_mode m = ''global'')"
proof -
  from l obtain pn a b where 1: "iterdir fs P = Inr pn"
    "list_materials_items fs P ''project'' (sort pn) = Inr a"
    "list_materials_dirs fs [(G, ''global'')] = Inr b" "ms = a @ b"
    using list_materials_dirs_Cons[of fs P "''project''" "[(G, ''global'')]" ms] by blast
  from 1(3) obtain gn c where 2: "iterdir fs G = Inr gn"
    "list_materials_items fs G ''global'' (sort gn) = Inr c" "b = c"
    using list_materials_dirs_Cons[of fs G "''global''" "[]" b] by auto
  from is_dir_listed[OF p 1(1)] have "x \<in> set (sort pn)" by simp
  from listed_entry[OF 1(2) this p v] have A: "\<exists>m\<in>set a. m_name m = x \<and> m_path m = P @ [x] \<and> m_mode m = ''project''" .
  from is_dir_listed[OF g 2(1)] have "x \<in> set (sort gn)" by simp
  from listed_entry[OF 2(2) this g v] have B: "\<exists>m\<in>set c. m_name m = x \<and> m_path m = G @ [x] \<and> m_mode m = ''global''" .
  from A B 1(4) 2(3) show ?thesis by auto
qed

lemma stocked_list: "list_materials stocked_env stocked_world = (Inr stocked_materials, stocked_world)"
  by code_simp

lemma stocked_dirs:
  "get_materials_dirs stocked_env (disk stocked_world) =
     [(stocked_project, ''project''), (stocked_global, ''global'')]"
  by code_simp

text \<open>
  Claim C6. The inventory is the entries of the project root followed by those of the global
  root, each part in ascending order of name. A name present in both roots gives two
  entries, one for each root. The listing leaves the disk as it is, and listing again gives
  the same inventory.
\<close>

theorem list_entries_order_stable:
  "list_materials e w = (Inr ms, w1) \<Longrightarrow>
   (\<exists>ps gs. ms = ps @ gs \<and> (\<forall>m\<in>set ps. m_mode m = ''project'')
      \<and> (\<forall>m\<in>set gs. m_mode m = ''global'')
      \<and> sorted (map m_name ps) \<and> sorted (map m_name gs))
   \<and> (get_materials_dirs e (disk w) = [(P, ''project''), (G, ''global'')]
        \<and> is_dir (disk w) (P @ [x]) \<and> is_dir (disk w) (G @ [x]) \<and> \<not> startswith x ''.''
      \<longrightarrow> (\<exists>m\<in>set ms. m_name m = x \<and> m_path m = P @ [x] \<and> m_mode m = ''project'')
          \<and> (\<exists>m\<in>set ms. m_name m = x \<and> m_path m = G @ [x] \<and> m_mode m = ''global''))
   \<and> disk w1 = disk w
   \<and> fst (list_materials e w1) = Inr ms"
proof -
  assume a: "list_materials e w = (Inr ms, w1)"
  note r = list_materials_result[OF a]
  from r have l: "list_materials_dirs (disk w) (get_materials_dirs e (disk w)) = Inr ms" by simp
  have 1: "\<exists>ps gs. ms = ps @ gs \<and> (\<forall>m\<in>set ps. m_mode m = ''project'')
      \<and> (\<forall>m\<in>set gs. m_mode m = ''global'')
      \<and> sorted (map m_name ps) \<and> sorted (map m_name gs)"
    using list_order[OF l] .
  have 2: "get_materials_dirs e (disk w) = [(P, ''project''), (G, ''global'')]
        \<and> is_dir (disk w) (P @ [x]) \<and> is_dir (disk w) (G @ [x]) \<and> \<not> startswith x ''.''
      \<longrightarrow> (\<exists>m\<in>set ms. m_name m = x \<and> m_path m = P @ [x] \<and> m_mode m = ''project'')
          \<and> (\<exists>m\<in>set ms. m_name m = x \<and> m_path m = G @ [x] \<and> m_mode m = ''global'')"
    using same_name_twice[of "disk w" P G ms x] l by auto
  have 3: "fst (list_materials e w1) = Inr ms"
    using list_materials_again[of w1 w e] r a by simp
  from 1 2 3 r show ?thesis by blast
qed

text \<open>On the example disk, \<^verbatim>\<open>x\<close> is listed once for each root.\<close>

theorem list_entries_order_stable_witness:
  "(\<exists>m\<in>set stocked_materials.
       m_name m = ''x'' \<and> m_path m = stocked_project @ [''x''] \<and> m_mode m = ''project'')
   \<and> (\<exists>m\<in>set stocked_materials.
       m_name m = ''x'' \<and> m_path m = stocked_global @ [''x''] \<and> m_mode m = ''global'')
   \<and> fst (list_materials stocked_env stocked_world) = Inr stocked_materials"
proof -
  note t = list_entries_order_stable[OF stocked_list, of stocked_project stocked_global "''x''"]
  have p: "is_dir (disk stocked_world) (stocked_project @ [''x''])" by code_simp
  have g: "is_dir (disk stocked_world) (stocked_global @ [''x''])" by code_simp
  have v: "\<not> startswith ''x'' ''.''" by code_simp
  from t[THEN conjunct2, THEN conjunct1] stocked_dirs p g v
  have "(\<exists>m\<in>set stocked_materials.
       m_name m = ''x'' \<and> m_path m = stocked_project @ [''x''] \<and> m_mode m = ''project'')
   \<and> (\<exists>m\<in>set stocked_materials.
       m_name m = ''x'' \<and> m_path m = stocked_global @ [''x''] \<and> m_mode m = ''global'')"
    by blast
  moreover from t[THEN conjunct2, THEN conjunct2, THEN conjunct2]
  have "fst (list_materials stocked_env stocked_world) = Inr stocked_materials" .
  ultimately show ?thesis by blast
qed

section \<open>Hidden entries\<close>

lemma unrelated_siblings: "n \<noteq> h \<Longrightarrow> unrelated (d @ [n]) (d @ [h])"
  by (simp add: unrelated_def)

lemma unrelated_append: "unrelated a b \<Longrightarrow> unrelated (a @ x) (b @ y)"
  unfolding unrelated_def prefix_def
  by (metis append.assoc append_eq_append_conv2)

lemma cleanup_all_run_frame:
  "\<forall>m\<in>set ms. unrelated (m_path m) q \<Longrightarrow>
   lookup (disk (snd (cleanup_all_run ms w))) q = lookup (disk w) q"
  using cleanup_all_loop_frame[of ms q 0 w]
  by (simp add: cleanup_all_run_def case_prod_unfold)

lemma cleanup_all_frame:
  assumes "\<And>ms w1. list_materials e w = (Inr ms, w1) \<Longrightarrow> \<forall>m\<in>set ms. unrelated (m_path m) q"
  shows "lookup (disk (snd (cleanup_all e force w))) q = lookup (disk w) q"
proof -
  obtain r w1 where l: "list_materials e w = (r, w1)" by (cases "list_materials e w")
  then have d1: "disk w1 = disk w" using disk_list_materials[of e w] by simp
  show ?thesis
  proof (cases r)
    case (Inl err)
    with l d1 show ?thesis by (simp add: cleanup_all_def)
  next
    case (Inr ms)
    with assms l have u: "\<forall>m\<in>set ms. unrelated (m_path m) q" by blast
    define w2 where "w2 = print_materials_list e ms w1"
    have d2: "disk w2 = disk w" by (simp add: w2_def d1)
    obtain y w3 where i: "input (print [WarningDeleteAll (length ms)] w2) = (y, w3)"
      by (cases "input (print [WarningDeleteAll (length ms)] w2)")
    then have d3: "disk w3 = disk w"
      using disk_input[of "print [WarningDeleteAll (length ms)] w2"] d2 by simp
    from l Inr d1 d2 d3 i cleanup_all_run_frame[OF u, of w2] cleanup_all_run_frame[OF u, of w3]
    show ?thesis
      by (auto simp: cleanup_all_def Let_def w2_def[symmetric] split: sum.splits)
  qed
qed

lemma interactive_cleanup_frame:
  assumes "\<And>ms w1. list_materials e w = (Inr ms, w1) \<Longrightarrow> \<forall>m\<in>set ms. unrelated (m_path m) q"
  shows "lookup (disk (snd (interactive_cleanup e w))) q = lookup (disk w) q"
proof -
  obtain r w1 where l: "list_materials e w = (r, w1)" by (cases "list_materials e w")
  then have d1: "disk w1 = disk w" using disk_list_materials[of e w] by simp
  show ?thesis
  proof (cases r)
    case (Inl err)
    with l d1 show ?thesis by (simp add: interactive_cleanup_def)
  next
    case (Inr ms)
    with assms l have u: "\<forall>m\<in>set ms. unrelated (m_path m) q" by blast
    from l Inr d1 interactive_loop_frame[OF u, of "print [Options] (print_materials_list e ms w1)"]
    show ?thesis
      by (simp add: interactive_cleanup_def)
  qed
qed

lemma main_frame:
  assumes "\<And>ms w1. list_materials e (print [Banner] w) = (Inr ms, w1)
      \<Longrightarrow> \<forall>m\<in>set ms. unrelated (m_path m) q"
    and "arg_name a = None"
  shows "lookup (disk (snd (main e a w))) q = lookup (disk w) q"
proof -
  obtain r w1 where lm: "list_materials e (print [Banner] w) = (r, w1)"
    by (cases "list_materials e (print [Banner] w)")
  then have l: "disk w1 = disk w"
    using disk_list_materials[of e "print [Banner] w"] by simp
  have c: "lookup (disk (snd (cleanup_all e (arg_force a) (print [Banner] w)))) q = lookup (disk w) q"
    using cleanup_all_frame[of e "print [Banner] w" q "arg_force a"] assms(1) by simp
  have i: "lookup (disk (snd (interactive_cleanup e (print [Banner] w)))) q = lookup (disk w) q"
    using interactive_cleanup_frame[of e "print [Banner] w" q] assms(1) by simp
  from lm l c i assms(2) show ?thesis
    by (auto simp: main_def Let_def split: sum.splits)
qed

lemma listed_unrelated_hidden:
  assumes l: "list_materials e w = (Inr ms, w1)"
    and h: "startswith h ''.''"
    and n: "\<forall>(d', mode')\<in>set (get_materials_dirs e (disk w)). d' = d \<or> unrelated d' d"
  shows "\<forall>m\<in>set ms. unrelated (m_path m) (d @ [h])"
proof
  fix m assume m: "m \<in> set ms"
  from list_materials_result[OF l]
  have "list_materials_dirs (disk w) (get_materials_dirs e (disk w)) = Inr ms" by simp
  from list_materials_dirs_fields[OF this m] obtain d' where
    d': "(d', m_mode m) \<in> set (get_materials_dirs e (disk w))" "m_path m = d' @ [m_name m]"
    and v: "\<not> startswith (m_name m) ''.''" by blast
  from n d'(1) have "d' = d \<or> unrelated d' d" by blast
  then show "unrelated (m_path m) (d @ [h])"
  proof
    assume "d' = d"
    moreover from h v have "m_name m \<noteq> h" by auto
    ultimately show ?thesis using d'(2) by (simp add: unrelated_siblings)
  next
    assume "unrelated d' d"
    then show ?thesis using d'(2) by (simp add: unrelated_append)
  qed
qed

text \<open>
  Claim C4, as amended. No entry whose name starts with a dot is in the inventory. Bulk
  removal, the interactive session and every run of \<^verbatim>\<open>main\<close> without a name work on the
  inventory alone, so they leave such an entry of a root untouched, provided no other root
  lies inside that root or around it. Removal by name is not part of the statement: it looks
  the name up on disk without consulting the inventory.
\<close>

theorem hidden_entries_outside_inventory:
  "(list_materials e w = (Inr ms, w1) \<longrightarrow> (\<forall>m\<in>set ms. \<not> startswith (m_name m) ''.''))
   \<and> (startswith h ''.''
       \<and> (\<forall>(d', mode')\<in>set (get_materials_dirs e (disk w)). d' = d \<or> unrelated d' d)
      \<longrightarrow> lookup (disk (snd (cleanup_all e force w))) (d @ [h]) = lookup (disk w) (d @ [h])
          \<and> lookup (disk (snd (interactive_cleanup e w))) (d @ [h]) = lookup (disk w) (d @ [h])
          \<and> (arg_name a = None
               \<longrightarrow> lookup (disk (snd (main e a w))) (d @ [h]) = lookup (disk w) (d @ [h])))"
proof -
  have 1: "list_materials e w = (Inr ms, w1) \<longrightarrow> (\<forall>m\<in>set ms. \<not> startswith (m_name m) ''.'')"
  proof
    assume l: "list_materials e w = (Inr ms, w1)"
    from list_materials_result[OF l]
    have "list_materials_dirs (disk w) (get_materials_dirs e (disk w)) = Inr ms" by simp
    from list_materials_dirs_fields[OF this] show "\<forall>m\<in>set ms. \<not> startswith (m_name m) ''.''"
      by blast
  qed
  have 2: "lookup (disk (snd (cleanup_all e force w))) (d @ [h]) = lookup (disk w) (d @ [h])
          \<and> lookup (disk (snd (interactive_cleanup e w))) (d @ [h]) = lookup (disk w) (d @ [h])
          \<and> (arg_name a = None
               \<longrightarrow> lookup (disk (snd (main e a w))) (d @ [h]) = lookup (disk w) (d @ [h]))"
    if h: "startswith h ''.''"
      and n: "\<forall>(d', mode')\<in>set (get_materials_dirs e (disk w)). d' = d \<or> unrelated d' d"
  proof -
    have u: "\<forall>m\<in>set ms'. unrelated (m_path m) (d @ [h])"
      if "list_materials e w = (Inr ms', w')" for ms' w'
      using listed_unrelated_hidden[OF that h n] .
    have n': "\<forall>(d', mode')\<in>set (get_materials_dirs e (disk (print [Banner] w))). d' = d \<or> unrelated d' d"
      using n by simp
    have u': "\<forall>m\<in>set ms'. unrelated (m_path m) (d @ [h])"
      if "list_materials e (print [Banner] w) = (Inr ms', w')" for ms' w'
      using listed_unrelated_hidden[OF that h n'] .
    from cleanup_all_frame[of e w "d @ [h]" force] interactive_cleanup_frame[of e w "d @ [h]"]
      main_frame[of e w "d @ [h]" a] u u'
    show ?thesis by blast
  qed
  from 1 2 show ?thesis by blast
qed

text \<open>The hidden \<^verbatim>\<open>.cache\<close> of the project root survives bulk removal and the session.\<close>

theorem hidden_entries_outside_inventory_witness:
  "lookup (disk (snd (cleanup_all stocked_env True stocked_world))) (stocked_project @ [''.cache''])
     = Some (Dir True [(''c'', File 5)])
   \<and> lookup (disk (snd (interactive_cleanup stocked_env stocked_world)))
       (stocked_project @ [''.cache'']) = Some (Dir True [(''c'', File 5)])
   \<and> ''.cache'' \<notin> set (map m_name stocked_materials)"
proof -
  note t = hidden_entries_outside_inventory[of stocked_env stocked_world stocked_materials
      stocked_world "''.cache''" stocked_project True]
  have h: "startswith ''.cache'' ''.''" by code_simp
  have u: "unrelated stocked_global stocked_project" by code_simp
  have n: "\<forall>(d', mode')\<in>set (get_materials_dirs stocked_env (disk stocked_world)).
      d' = stocked_project \<or> unrelated d' stocked_project"
    by (simp add: stocked_dirs u)
  have b: "lookup (disk stocked_world) (stocked_project @ [''.cache'']) = Some (Dir True [(''c'', File 5)])"
    by code_simp
  from t[THEN conjunct2] h n b
  have "lookup (disk (snd (cleanup_all stocked_env True stocked_world))) (stocked_project @ [''.cache''])
     = Some (Dir True [(''c'', File 5)])
   \<and> lookup (disk (snd (interactive_cleanup stocked_env stocked_world)))
       (stocked_project @ [''.cache'']) = Some (Dir True [(''c'', File 5)])"
    by simp
  moreover from t[THEN conjunct1] stocked_list h
  have "''.cache'' \<notin> set (map m_name stocked_materials)" by auto
  ultimately show ?thesis by blast
qed

text \<open>
  Claim C4 as stated fails for removal by name: given the name \<^verbatim>\<open>.cache\<close>, the forced
  removal deletes the hidden entry.
\<close>

theorem delete_by_name_removes_hidden:
  "plain_name ''.cache'' \<and> startswith ''.cache'' ''.''
   \<and> exists (disk stocked_world) (stocked_project @ [''.cache''])
   \<and> fst (cleanup_specific stocked_env ''.cache'' True stocked_world) = Inr True
   \<and> \<not> exists (disk (snd (cleanup_specific stocked_env ''.cache'' True stocked_world)))
         (stocked_project @ [''.cache''])"
  by code_simp

section \<open>Removal by name\<close>








section \<open>Bulk removal\<close>


lemma delete_forced_stdin [simp]: "stdin (snd (delete_material m True w)) = stdin w"
  by (simp add: delete_material_def delete_material_try_def split: prod.splits option.splits)

lemma delete_each_forced_length [simp]: "length (fst (delete_each_forced ms w)) = length ms"
  by (induction ms arbitrary: w) (simp_all add: case_prod_unfold)

lemma delete_each_forced_stdin [simp]: "stdin (snd (delete_each_forced ms w)) = stdin w"
  by (induction ms arbitrary: w) (simp_all add: case_prod_unfold)








text \<open>
  Outside the amended claim: in the interactive session the bulk branch, once the phrase is
  typed, still asks about every entry, and declining each one removes nothing.
\<close>

lemma interactive_bulk_asks_again:
  "disk (snd (interactive_cleanup stocked_env
       (stocked_typing [''all'', ''DELETE ALL'', ''n'', ''n'', ''n'']))) = stocked_fs
   \<and> stdin (snd (interactive_cleanup stocked_env
       (stocked_typing [''all'', ''DELETE ALL'', ''n'', ''n'', ''n'']))) = []
   \<and> last (stdout (snd (interactive_cleanup stocked_env
       (stocked_typing [''all'', ''DELETE ALL'', ''n'', ''n'', ''n''])))) = DeletedCount 0 3"
  by code_simp

section \<open>The candidate roots\<close>

lemma exists_Link [simp]: "exists (Link t) q = exists t q"
  by (simp add: exists_def)

lemma exists_Dir_Nil [simp]: "exists (Dir r ks) []"
  by (simp add: exists_def)

lemma exists_Dir_Cons:
  "exists (Dir r ks) (m # q) = (case map_of ks m of Some c \<Rightarrow> exists c q | None \<Rightarrow> False)"
  by (simp add: exists_def split: option.splits)

lemma exists_mkdir_chain: "exists (mkdir_chain p) q = prefix q p"
proof (induction p arbitrary: q)
  case Nil
  show ?case by (cases q) (simp_all add: exists_Dir_Cons)
next
  case (Cons n p)
  show ?case by (cases q) (simp_all add: exists_Dir_Cons Cons.IH)
qed

lemma mkdir_exists:
  "mkdir t p = Inr t' \<Longrightarrow> exists t' q = (exists t q \<or> prefix q p)"
proof (induction t p arbitrary: t' q rule: mkdir.induct)
  case (1 t p)
  then show ?case by (auto split: sum.splits)
next
  case (5 r ks)
  then show ?case by (cases q) auto
next
  case (6 r ks n p)
  show ?case
  proof (cases q)
    case Nil
    with 6(2) show ?thesis by (auto split: option.splits sum.splits)
  next
    case (Cons m q')
    show ?thesis
    proof (cases "map_of ks n")
      case None
      with 6(2) have t': "t' = Dir r (ks @ [(n, mkdir_chain p)])" by simp
      show ?thesis
      proof (cases "m = n")
        case True
        with None t' Cons show ?thesis
          by (simp add: exists_Dir_Cons exists_mkdir_chain map_add_def)
      next
        case False
        with t' Cons show ?thesis
          by (simp add: exists_Dir_Cons map_add_def split: option.splits)
      qed
    next
      case (Some c)
      with 6(2) obtain c' where c': "mkdir c p = Inr c'" "t' = Dir r (AList.update n c' ks)"
        by (auto split: sum.splits)
      show ?thesis
      proof (cases "m = n")
        case True
        with Some c' Cons 6(1)[OF Some c'(1), of q'] show ?thesis
          by (simp add: exists_Dir_Cons update_conv')
      next
        case False
        with c' Cons show ?thesis
          by (simp add: exists_Dir_Cons update_conv')
      qed
    qed
  qed
qed simp_all

lemma prefix_snoc2:
  "prefix x (R @ [a, b]) = (x = R @ [a, b] \<or> x = R @ [a] \<or> prefix x R)"
proof -
  have "prefix x ((R @ [a]) @ [b]) = (x = (R @ [a]) @ [b] \<or> prefix x (R @ [a]))"
    by (rule prefix_snoc)
  then show ?thesis by (auto simp: prefix_snoc)
qed

lemma has_marker_exists: "has_marker fs d \<Longrightarrow> exists fs d"
  by (auto simp: has_marker_def dest: exists_append)

lemma walk_result_marked: "find_project_root_walk fs s = Some R \<Longrightarrow> has_marker fs R"
  by (auto simp: find_project_root_walk_find find_Some_iff)

lemma walk_cong:
  "(\<And>d. has_marker fs' d = has_marker fs d) \<Longrightarrow>
   find_project_root_walk fs' s = find_project_root_walk fs s"
proof -
  assume "\<And>d. has_marker fs' d = has_marker fs d"
  then have "has_marker fs' = has_marker fs" by (simp add: fun_eq_iff)
  then show ?thesis by (simp add: find_project_root_walk_find)
qed

lemma mkdir_global_marker:
  assumes "exists fs H" and "mkdir fs (H @ [''skill-materials'']) = Inr fs'"
  shows "has_marker fs' d = has_marker fs d"
proof -
  have "exists fs' (d @ [m]) = exists fs (d @ [m])" if "m \<noteq> ''skill-materials''" for m
    using mkdir_exists[OF assms(2), of "d @ [m]"] that exists_prefix[OF assms(1), of "d @ [m]"]
    by (auto simp: prefix_snoc)
  then show ?thesis by (simp add: has_marker_def)
qed

lemma mkdir_project_marker:
  assumes "has_marker fs R" and "mkdir fs (R @ [''.claude'', ''temp-materials'']) = Inr fs'"
  shows "has_marker fs' d = has_marker fs d"
proof -
  note ex = has_marker_exists[OF assms(1)]
  have g: "exists fs' (d @ [''.git'']) = exists fs (d @ [''.git''])"
    using mkdir_exists[OF assms(2), of "d @ [''.git'']"] exists_prefix[OF ex, of "d @ [''.git'']"]
    by (auto simp: prefix_snoc2)
  have c: "exists fs' (d @ [''.claude'']) = (exists fs (d @ [''.claude'']) \<or> d = R)"
    using mkdir_exists[OF assms(2), of "d @ [''.claude'']"] exists_prefix[OF ex, of "d @ [''.claude'']"]
    by (auto simp: prefix_snoc2)
  from g c assms(1) show ?thesis by (auto simp: has_marker_def)
qed

lemma roots_after_global:
  assumes n: "\<not> exists fs (home e @ [''skill-materials''])" and h: "exists fs (home e)"
    and m: "mkdir fs (home e @ [''skill-materials'']) = Inr fs'"
  shows "get_materials_dirs e fs' = get_materials_dirs e fs @ [(home e @ [''skill-materials''], ''global'')]"
proof -
  have r: "find_project_root e fs' None = find_project_root e fs None"
    unfolding find_project_root_def
    by (rule walk_cong) (rule mkdir_global_marker[OF h m])
  have p: "exists fs' (P @ [''.claude'', ''temp-materials'']) = exists fs (P @ [''.claude'', ''temp-materials''])" for P
    using mkdir_exists[OF m, of "P @ [''.claude'', ''temp-materials'']"]
      exists_prefix[OF h, of "P @ [''.claude'', ''temp-materials'']"]
    by (auto simp: prefix_snoc)
  have g: "exists fs' (home e @ [''skill-materials''])"
    using mkdir_exists[OF m, of "home e @ [''skill-materials'']"] by simp
  from r p g n show ?thesis
    by (simp add: get_materials_dirs_def Let_def split: option.splits)
qed

lemma roots_after_project:
  assumes r: "find_project_root e fs None = Some R"
    and n: "\<not> exists fs (R @ [''.claude'', ''temp-materials''])"
    and m: "mkdir fs (R @ [''.claude'', ''temp-materials'']) = Inr fs'"
  shows "get_materials_dirs e fs' = (R @ [''.claude'', ''temp-materials''], ''project'') # get_materials_dirs e fs"
proof -
  from r have mk: "has_marker fs R"
    by (auto simp: find_project_root_def dest: walk_result_marked)
  note ex = has_marker_exists[OF mk]
  have r': "find_project_root e fs' None = Some R"
    using r walk_cong[of fs' fs, OF mkdir_project_marker[OF mk m]]
    by (simp add: find_project_root_def)
  have p: "exists fs' (R @ [''.claude'', ''temp-materials''])"
    using mkdir_exists[OF m, of "R @ [''.claude'', ''temp-materials'']"] by simp
  have g: "exists fs' (home e @ [''skill-materials'']) = exists fs (home e @ [''skill-materials''])"
    using mkdir_exists[OF m, of "home e @ [''skill-materials'']"]
      exists_prefix[OF ex, of "home e @ [''skill-materials'']"]
    by (auto simp: prefix_snoc2)
  from r r' p g n show ?thesis
    by (simp add: get_materials_dirs_def Let_def)
qed

text \<open>
  Claim C5. \<^verbatim>\<open>get_materials_dirs\<close> reads the disk and returns no new one: it creates
  nothing. Its result is the project root (when a boundary is found) and the global root, in
  that order, each kept exactly when it exists on disk. When the missing global root is
  created (the home directory being there), the next call returns what it returned before
  with the global root added at the end; when the missing project root is created below the
  boundary, the next call returns it in front of what was returned before.
\<close>

theorem candidate_roots_exist_in_order:
  "(\<forall>(d, mode)\<in>set (get_materials_dirs e fs). exists fs d)
   \<and> get_materials_dirs e fs =
       filter (\<lambda>(d, mode). exists fs d)
         ((case find_project_root e fs None of
             Some P \<Rightarrow> [(P @ [''.claude'', ''temp-materials''], ''project'')]
           | None \<Rightarrow> [])
          @ [(home e @ [''skill-materials''], ''global'')])
   \<and> (\<not> exists fs (home e @ [''skill-materials'']) \<and> exists fs (home e)
        \<and> mkdir fs (home e @ [''skill-materials'']) = Inr fs'
      \<longrightarrow> get_materials_dirs e fs' =
            get_materials_dirs e fs @ [(home e @ [''skill-materials''], ''global'')])
   \<and> (find_project_root e fs None = Some R
        \<and> \<not> exists fs (R @ [''.claude'', ''temp-materials''])
        \<and> mkdir fs (R @ [''.claude'', ''temp-materials'']) = Inr fs''
      \<longrightarrow> get_materials_dirs e fs'' =
            (R @ [''.claude'', ''temp-materials''], ''project'') # get_materials_dirs e fs)"
proof -
  have 1: "\<forall>(d, mode)\<in>set (get_materials_dirs e fs). exists fs d"
    using get_materials_dirs_exist by blast
  from 1 get_materials_dirs_filter[of e fs] roots_after_global[of fs e fs']
    roots_after_project[of e fs R fs'']
  show ?thesis by blast
qed

text \<open>In \<^verbatim>\<open>/home/u/proj/src\<close>: no root at first, then each root once it is created.\<close>

theorem candidate_roots_exist_in_order_witness:
  "get_materials_dirs demo_env demo_fs = []
   \<and> get_materials_dirs demo_env demo_fs_global = [([''home'', ''u'', ''skill-materials''], ''global'')]
   \<and> get_materials_dirs demo_env demo_fs_project =
       [([''home'', ''u'', ''proj'', ''.claude'', ''temp-materials''], ''project'')]"
proof -
  note t = candidate_roots_exist_in_order[of demo_env demo_fs demo_fs_global
      "[''home'', ''u'', ''proj'']" demo_fs_project]
  have h: "home demo_env = [''home'', ''u'']" by (simp add: demo_env_def)
  have 1: "\<not> exists demo_fs (home demo_env @ [''skill-materials''])" by code_simp
  have 2: "exists demo_fs (home demo_env)" by code_simp
  have 3: "mkdir demo_fs (home demo_env @ [''skill-materials'']) = Inr demo_fs_global" by code_simp
  have 4: "\<not> exists demo_fs ([''home'', ''u'', ''proj''] @ [''.claude'', ''temp-materials''])"
    by code_simp
  have 5: "mkdir demo_fs ([''home'', ''u'', ''proj''] @ [''.claude'', ''temp-materials''])
      = Inr demo_fs_project" by code_simp
  from t[THEN conjunct2, THEN conjunct2, THEN conjunct1] 1 2 3 demo_dirs h
  have a: "get_materials_dirs demo_env demo_fs_global = [([''home'', ''u'', ''skill-materials''], ''global'')]"
    by simp
  from t[THEN conjunct2, THEN conjunct2, THEN conjunct2] demo_root 4 5 demo_dirs
  have b: "get_materials_dirs demo_env demo_fs_project =
       [([''home'', ''u'', ''proj'', ''.claude'', ''temp-materials''], ''project'')]"
    by simp
  from a b demo_dirs show ?thesis by simp
qed

section \<open>The packaging filter\<close>









end
